theory Spec2Isabelle
  imports Main "HOL-Library.AList"
begin

section \<open>Values, exceptions and the transport\<close>

text \<open>
  The server of \<^verbatim>\<open>backend/server.py\<close> keeps a registry of WebSocket connections per
  room (\<^verbatim>\<open>ConnectionManager\<close>), relays signaling frames between them and keeps room
  documents in a store. Python dictionaries keep insertion order and the fan-out of a
  broadcast walks that order, so a dictionary is an association list: \<open>map_of\<close> reads a
  key, \<open>AList.update\<close> is \<^verbatim>\<open>d[k] = v\<close> (an existing key keeps its place, a new one goes
  last) and \<open>AList.delete\<close> is \<^verbatim>\<open>del d[k]\<close>.
\<close>

datatype exn =
    WebSocketDisconnect
  | JSONDecodeError
  | KeyError
  | TypeError
  | RuntimeError
  | HTTPException nat string

text \<open>
  A call either returns or raises. Whatever was mutated before a raise stays mutated, so
  every stateful operation gives back its result together with the state it leaves.
\<close>

datatype 'a result = Raised exn | Returned 'a

text \<open>
  The values \<^verbatim>\<open>json.loads\<close> produces. A float is kept as its literal: no operation of
  the server looks at the number.
\<close>

datatype pyval =
    PyNone
  | PyBool bool
  | PyInt int
  | PyFloat string
  | PyStr string
  | PyList "pyval list"
  | PyDict "(string \<times> pyval) list"

text \<open>
  A text frame on the wire is either the text a client sent, relayed as it came, or the
  text \<^verbatim>\<open>json.dumps\<close> makes of a value built by the server; the encoder belongs to the
  Python library and is not unfolded.
\<close>

datatype frame = Raw string | Dumps pyval

type_synonym websocket = nat

text \<open>
  The transport: the sockets accepted so far, the frames written so far (in order), and
  for every socket whose writes fail the exception its write raises.
\<close>

record Net =
  accepted :: "websocket list"
  outbox :: "(websocket \<times> frame) list"
  faults :: "(websocket \<times> exn) list"

definition accept :: "websocket \<Rightarrow> Net \<Rightarrow> unit result \<times> Net" where
  "accept ws n =
     (case map_of (faults n) ws of
        Some e \<Rightarrow> (Raised e, n)
      | None \<Rightarrow> (Returned (), n\<lparr>accepted := accepted n @ [ws]\<rparr>))"

definition send_text :: "websocket \<Rightarrow> frame \<Rightarrow> Net \<Rightarrow> unit result \<times> Net" where
  "send_text ws message n =
     (case map_of (faults n) ws of
        Some e \<Rightarrow> (Raised e, n)
      | None \<Rightarrow> (Returned (), n\<lparr>outbox := outbox n @ [(ws, message)]\<rparr>))"

text \<open>\<^verbatim>\<open>message_data[key]\<close>: only a dictionary can be indexed by a string.\<close>

fun getitem :: "pyval \<Rightarrow> string \<Rightarrow> pyval result" where
  "getitem (PyDict items) key =
     (case map_of items key of None \<Rightarrow> Raised KeyError | Some v \<Rightarrow> Returned v)"
| "getitem _ key = Raised TypeError"

text \<open>
  \<^verbatim>\<open>key in d\<close> and \<^verbatim>\<open>d[key]\<close> for a dictionary with string keys and any Python value as
  the key: a list or a dictionary cannot be hashed, every other value that is not a
  string equals no key.
\<close>

fun lookup_key :: "pyval \<Rightarrow> (string \<times> 'v) list \<Rightarrow> 'v option result" where
  "lookup_key (PyStr s) d = Returned (map_of d s)"
| "lookup_key (PyList _) d = Raised TypeError"
| "lookup_key (PyDict _) d = Raised TypeError"
| "lookup_key _ d = Returned None"

section \<open>ConnectionManager\<close>

record ConnectionManager =
  active_connections :: "(string \<times> (string \<times> websocket) list) list"
  room_participants :: "(string \<times> string list) list"

definition init :: ConnectionManager where
  "init = \<lparr>active_connections = [], room_participants = []\<rparr>"

definition connect ::
  "websocket \<Rightarrow> string \<Rightarrow> string \<Rightarrow> ConnectionManager \<times> Net
     \<Rightarrow> unit result \<times> ConnectionManager \<times> Net" where
  "connect ws user_id room_id s =
     (case accept ws (snd s) of
        (Raised e, n) \<Rightarrow> (Raised e, fst s, n)
      | (Returned _, n) \<Rightarrow>
          let m = fst s;
              m1 = (if map_of (active_connections m) room_id = None
                    then m\<lparr>active_connections := AList.update room_id [] (active_connections m),
                           room_participants := AList.update room_id [] (room_participants m)\<rparr>
                    else m)
          in (case map_of (active_connections m1) room_id of
                None \<Rightarrow> (Raised KeyError, m1, n)
              | Some conns \<Rightarrow>
                  let m2 = m1\<lparr>active_connections :=
                              AList.update room_id (AList.update user_id ws conns)
                                (active_connections m1)\<rparr>
                  in (case map_of (room_participants m2) room_id of
                        None \<Rightarrow> (Raised KeyError, m2, n)
                      | Some ps \<Rightarrow>
                          if user_id \<notin> set ps
                          then (Returned (),
                                m2\<lparr>room_participants :=
                                     AList.update room_id (ps @ [user_id]) (room_participants m2)\<rparr>,
                                n)
                          else (Returned (), m2, n))))"

definition disconnect ::
  "string \<Rightarrow> string \<Rightarrow> ConnectionManager \<Rightarrow> unit result \<times> ConnectionManager" where
  "disconnect user_id room_id m =
     (case map_of (active_connections m) room_id of
        None \<Rightarrow> (Returned (), m)
      | Some conns \<Rightarrow>
          if map_of conns user_id = None then (Returned (), m)
          else
            let conns1 = AList.delete user_id conns;
                m1 = m\<lparr>active_connections := AList.update room_id conns1 (active_connections m)\<rparr>
            in (case map_of (room_participants m1) room_id of
                  None \<Rightarrow> (Raised KeyError, m1)
                | Some ps \<Rightarrow>
                    let m2 = (if user_id \<in> set ps
                              then m1\<lparr>room_participants :=
                                        AList.update room_id (remove1 user_id ps)
                                          (room_participants m1)\<rparr>
                              else m1)
                    in if conns1 = []
                       then (Returned (),
                             m2\<lparr>active_connections := AList.delete room_id (active_connections m2),
                                room_participants := AList.delete room_id (room_participants m2)\<rparr>)
                       else (Returned (), m2)))"

definition send_personal_message ::
  "frame \<Rightarrow> pyval \<Rightarrow> string \<Rightarrow> ConnectionManager \<Rightarrow> Net \<Rightarrow> unit result \<times> Net" where
  "send_personal_message message user_id room_id m n =
     (case map_of (active_connections m) room_id of
        None \<Rightarrow> (Returned (), n)
      | Some conns \<Rightarrow>
          (case lookup_key user_id conns of
             Raised e \<Rightarrow> (Raised e, n)
           | Returned None \<Rightarrow> (Returned (), n)
           | Returned (Some ws) \<Rightarrow> send_text ws message n))"

text \<open>
  The loop of \<^verbatim>\<open>broadcast_to_room\<close> over the items of the room's dictionary. The bare
  \<^verbatim>\<open>except: pass\<close> around the write drops whatever it raises and the loop goes on.
\<close>

fun fan_out :: "frame \<Rightarrow> string option \<Rightarrow> (string \<times> websocket) list \<Rightarrow> Net \<Rightarrow> Net" where
  "fan_out message exclude_user [] n = n"
| "fan_out message exclude_user ((user_id, ws) # rest) n =
     (if Some user_id \<noteq> exclude_user
      then (case send_text ws message n of
              (Raised e, n1) \<Rightarrow> fan_out message exclude_user rest n1
            | (Returned _, n1) \<Rightarrow> fan_out message exclude_user rest n1)
      else fan_out message exclude_user rest n)"

definition broadcast_to_room ::
  "frame \<Rightarrow> string \<Rightarrow> string option \<Rightarrow> ConnectionManager \<Rightarrow> Net \<Rightarrow> unit result \<times> Net" where
  "broadcast_to_room message room_id exclude_user m n =
     (case map_of (active_connections m) room_id of
        None \<Rightarrow> (Returned (), n)
      | Some conns \<Rightarrow> (Returned (), fan_out message exclude_user conns n))"

text \<open>
  The spec's \<open>lookup\<close> and \<open>members_of\<close> are reads of the two dictionaries of the manager:
  the handle stored for a user of a room, and the room's participant list.
\<close>

definition lookup :: "ConnectionManager \<Rightarrow> string \<Rightarrow> string \<Rightarrow> websocket option" where
  "lookup m room_id user_id =
     (case map_of (active_connections m) room_id of
        None \<Rightarrow> None
      | Some conns \<Rightarrow> map_of conns user_id)"

definition members_of :: "ConnectionManager \<Rightarrow> string \<Rightarrow> string list" where
  "members_of m room_id =
     (case map_of (room_participants m) room_id of None \<Rightarrow> [] | Some ps \<Rightarrow> ps)"

text \<open>The registry states that connects and disconnects can produce, whatever they return.\<close>

inductive reachable :: "ConnectionManager \<Rightarrow> bool" where
  reachable_init: "reachable init"
| reachable_connect:
    "reachable m \<Longrightarrow> connect ws user_id room_id (m, n) = (r, m', n') \<Longrightarrow> reachable m'"
| reachable_disconnect:
    "reachable m \<Longrightarrow> disconnect user_id room_id m = (r, m') \<Longrightarrow> reachable m'"

definition registry_inv :: "ConnectionManager \<Rightarrow> bool" where
  "registry_inv m \<longleftrightarrow>
     distinct (map fst (active_connections m)) \<and>
     distinct (map fst (room_participants m)) \<and>
     fst ` set (active_connections m) = fst ` set (room_participants m) \<and>
     (\<forall>room_id conns. map_of (active_connections m) room_id = Some conns \<longrightarrow>
        conns \<noteq> [] \<and> distinct (map fst conns) \<and>
        (\<exists>ps. map_of (room_participants m) room_id = Some ps \<and>
              distinct ps \<and> set ps = fst ` set conns))"

section \<open>The room store and the request handlers\<close>

text \<open>
  The documents of \<^verbatim>\<open>db.rooms\<close>, in the order of the collection. \<^verbatim>\<open>find_one\<close>,
  \<^verbatim>\<open>update_one\<close> and \<^verbatim>\<open>delete_one\<close> with the filter \<^verbatim>\<open>{"id": room_id}\<close> act on the
  first document that has this id.
\<close>

record User =
  id' :: string
  email :: string
  username :: string

record ChatRoom =
  id' :: string
  name :: "string option"
  language :: string
  level :: string
  max_users :: int
  is_private :: bool
  created_by :: string
  created_at :: nat
  participants :: "string list"
  active_speakers :: "string list"

record VoiceStatus =
  room_id' :: string
  user_id' :: string
  is_speaking :: bool
  is_muted :: bool

record WebRTCOffer =
  room_id' :: string
  from_user :: string
  to_user :: string
  offer :: "(string \<times> pyval) list"

record WebRTCAnswer =
  room_id' :: string
  from_user :: string
  to_user :: string
  answer :: "(string \<times> pyval) list"

record ICECandidate =
  room_id' :: string
  from_user :: string
  to_user :: string
  candidate :: "(string \<times> pyval) list"

record World =
  manager :: ConnectionManager
  net :: Net
  rooms :: "ChatRoom list"

fun find_one :: "string \<Rightarrow> ChatRoom list \<Rightarrow> ChatRoom option" where
  "find_one room_id [] = None"
| "find_one room_id (d # ds) = (if ChatRoom.id' d = room_id then Some d else find_one room_id ds)"

fun update_one :: "string \<Rightarrow> (ChatRoom \<Rightarrow> ChatRoom) \<Rightarrow> ChatRoom list \<Rightarrow> ChatRoom list" where
  "update_one room_id f [] = []"
| "update_one room_id f (d # ds) =
     (if ChatRoom.id' d = room_id then f d # ds else d # update_one room_id f ds)"

fun delete_one :: "string \<Rightarrow> ChatRoom list \<Rightarrow> ChatRoom list" where
  "delete_one room_id [] = []"
| "delete_one room_id (d # ds) =
     (if ChatRoom.id' d = room_id then ds else d # delete_one room_id ds)"

text \<open>The array operators: \<^verbatim>\<open>$pull\<close> removes every occurrence, \<^verbatim>\<open>$addToSet\<close> adds a missing one.\<close>

definition pull :: "string \<Rightarrow> string list \<Rightarrow> string list" where
  "pull v xs = removeAll v xs"

definition addToSet :: "string \<Rightarrow> string list \<Rightarrow> string list" where
  "addToSet v xs = (if v \<in> set xs then xs else xs @ [v])"

definition leave_room :: "string \<Rightarrow> User \<Rightarrow> World \<Rightarrow> string result \<times> World" where
  "leave_room room_id current_user w =
     (case find_one room_id (rooms w) of
        None \<Rightarrow> (Raised (HTTPException 404 ''Room not found''), w)
      | Some room \<Rightarrow>
          let w1 = (if User.id' current_user \<in> set (participants room)
                    then w\<lparr>rooms :=
                           update_one room_id
                             (\<lambda>d. d\<lparr>participants := pull (User.id' current_user) (participants d),
                                     active_speakers :=
                                       pull (User.id' current_user) (active_speakers d)\<rparr>)
                             (rooms w)\<rparr>
                    else w)
          in (case disconnect (User.id' current_user) room_id (manager w1) of
                (Raised e, m) \<Rightarrow> (Raised e, w1\<lparr>manager := m\<rparr>)
              | (Returned _, m) \<Rightarrow>
                  (case broadcast_to_room
                          (Dumps (PyDict [(''type'', PyStr ''user_left''),
                                          (''user_id'', PyStr (User.id' current_user)),
                                          (''room_id'', PyStr room_id)]))
                          room_id None m (net w1) of
                     (Raised e, n) \<Rightarrow> (Raised e, w1\<lparr>manager := m, net := n\<rparr>)
                   | (Returned _, n) \<Rightarrow>
                       let w2 = w1\<lparr>manager := m, net := n\<rparr>
                       in (case find_one room_id (rooms w2) of
                             None \<Rightarrow> (Raised TypeError, w2)
                           | Some updated_room \<Rightarrow>
                               if participants updated_room = []
                               then (Returned ''Successfully left room'',
                                     w2\<lparr>rooms := delete_one room_id (rooms w2)\<rparr>)
                               else (Returned ''Successfully left room'', w2)))))"

definition send_offer :: "WebRTCOffer \<Rightarrow> User \<Rightarrow> World \<Rightarrow> string result \<times> World" where
  "send_offer offer_data current_user w =
     (case send_personal_message
             (Dumps (PyDict [(''type'', PyStr ''webrtc_offer''),
                             (''from_user'', PyStr (WebRTCOffer.from_user offer_data)),
                             (''offer'', PyDict (offer offer_data))]))
             (PyStr (WebRTCOffer.to_user offer_data)) (WebRTCOffer.room_id' offer_data)
             (manager w) (net w) of
        (Raised e, n) \<Rightarrow> (Raised e, w\<lparr>net := n\<rparr>)
      | (Returned _, n) \<Rightarrow> (Returned ''Offer sent'', w\<lparr>net := n\<rparr>))"

definition send_answer :: "WebRTCAnswer \<Rightarrow> User \<Rightarrow> World \<Rightarrow> string result \<times> World" where
  "send_answer answer_data current_user w =
     (case send_personal_message
             (Dumps (PyDict [(''type'', PyStr ''webrtc_answer''),
                             (''from_user'', PyStr (WebRTCAnswer.from_user answer_data)),
                             (''answer'', PyDict (answer answer_data))]))
             (PyStr (WebRTCAnswer.to_user answer_data)) (WebRTCAnswer.room_id' answer_data)
             (manager w) (net w) of
        (Raised e, n) \<Rightarrow> (Raised e, w\<lparr>net := n\<rparr>)
      | (Returned _, n) \<Rightarrow> (Returned ''Answer sent'', w\<lparr>net := n\<rparr>))"

definition send_ice_candidate :: "ICECandidate \<Rightarrow> User \<Rightarrow> World \<Rightarrow> string result \<times> World" where
  "send_ice_candidate candidate_data current_user w =
     (case send_personal_message
             (Dumps (PyDict [(''type'', PyStr ''ice_candidate''),
                             (''from_user'', PyStr (ICECandidate.from_user candidate_data)),
                             (''candidate'', PyDict (candidate candidate_data))]))
             (PyStr (ICECandidate.to_user candidate_data)) (ICECandidate.room_id' candidate_data)
             (manager w) (net w) of
        (Raised e, n) \<Rightarrow> (Raised e, w\<lparr>net := n\<rparr>)
      | (Returned _, n) \<Rightarrow> (Returned ''ICE candidate sent'', w\<lparr>net := n\<rparr>))"

definition update_voice_status :: "VoiceStatus \<Rightarrow> User \<Rightarrow> World \<Rightarrow> string result \<times> World" where
  "update_voice_status voice_data current_user w =
     (let w1 = (if is_speaking voice_data
                then w\<lparr>rooms :=
                       update_one (VoiceStatus.room_id' voice_data)
                         (\<lambda>d. d\<lparr>active_speakers :=
                                   addToSet (user_id' voice_data) (active_speakers d)\<rparr>)
                         (rooms w)\<rparr>
                else w\<lparr>rooms :=
                       update_one (VoiceStatus.room_id' voice_data)
                         (\<lambda>d. d\<lparr>active_speakers :=
                                   pull (user_id' voice_data) (active_speakers d)\<rparr>)
                         (rooms w)\<rparr>)
      in (case broadcast_to_room
                (Dumps (PyDict [(''type'', PyStr ''voice_status_update''),
                                (''user_id'', PyStr (user_id' voice_data)),
                                (''is_speaking'', PyBool (is_speaking voice_data)),
                                (''is_muted'', PyBool (is_muted voice_data))]))
                (VoiceStatus.room_id' voice_data) (Some (User.id' current_user))
                (manager w1) (net w1) of
            (Raised e, n) \<Rightarrow> (Raised e, w1\<lparr>net := n\<rparr>)
          | (Returned _, n) \<Rightarrow> (Returned ''Voice status updated'', w1\<lparr>net := n\<rparr>)))"

section \<open>The WebSocket endpoint\<close>

text \<open>
  What \<^verbatim>\<open>receive_text\<close> gives the handler, one event per turn of its loop: a text
  frame, with what \<^verbatim>\<open>json.loads\<close> makes of it (a value, or the exception it raises), or
  the \<^verbatim>\<open>WebSocketDisconnect\<close> of a connection that is gone. The handler is left in one of
  three ways: it is still in its loop waiting for the next frame, it has returned through
  its \<^verbatim>\<open>except WebSocketDisconnect\<close> block, or an exception it does not catch has ended it.
\<close>

datatype event = Text string "pyval result" | Disconnect

datatype session = Active | Closed | Crashed exn

definition relay :: "string \<Rightarrow> pyval \<Rightarrow> string \<Rightarrow> World \<Rightarrow> unit result \<times> World" where
  "relay data message_data room_id w =
     (case getitem message_data ''to_user'' of
        Raised e \<Rightarrow> (Raised e, w)
      | Returned target \<Rightarrow>
          (case send_personal_message (Raw data) target room_id (manager w) (net w) of
             (r, n) \<Rightarrow> (r, w\<lparr>net := n\<rparr>)))"

definition handle_text ::
  "string \<Rightarrow> pyval result \<Rightarrow> string \<Rightarrow> string \<Rightarrow> World \<Rightarrow> unit result \<times> World" where
  "handle_text data loaded room_id user_id w =
     (case loaded of
        Raised e \<Rightarrow> (Raised e, w)
      | Returned message_data \<Rightarrow>
          (case getitem message_data ''type'' of
             Raised e \<Rightarrow> (Raised e, w)
           | Returned ty \<Rightarrow>
               if ty = PyStr ''webrtc_offer'' then relay data message_data room_id w
               else if ty = PyStr ''webrtc_answer'' then relay data message_data room_id w
               else if ty = PyStr ''ice_candidate'' then relay data message_data room_id w
               else (case broadcast_to_room (Raw data) room_id (Some user_id)
                            (manager w) (net w) of
                       (r, n) \<Rightarrow> (r, w\<lparr>net := n\<rparr>))))"

definition on_disconnect :: "string \<Rightarrow> string \<Rightarrow> World \<Rightarrow> session \<times> World" where
  "on_disconnect room_id user_id w =
     (case disconnect user_id room_id (manager w) of
        (Raised e, m) \<Rightarrow> (Crashed e, w\<lparr>manager := m\<rparr>)
      | (Returned _, m) \<Rightarrow>
          (case broadcast_to_room
                  (Dumps (PyDict [(''type'', PyStr ''user_disconnected''),
                                  (''user_id'', PyStr user_id)]))
                  room_id None m (net w) of
             (Raised e, n) \<Rightarrow> (Crashed e, w\<lparr>manager := m, net := n\<rparr>)
           | (Returned _, n) \<Rightarrow> (Closed, w\<lparr>manager := m, net := n\<rparr>)))"

fun receive_loop :: "string \<Rightarrow> string \<Rightarrow> event list \<Rightarrow> World \<Rightarrow> session \<times> World" where
  "receive_loop room_id user_id [] w = (Active, w)"
| "receive_loop room_id user_id (ev # evs) w =
     (case (case ev of
              Disconnect \<Rightarrow> (Raised WebSocketDisconnect, w)
            | Text data loaded \<Rightarrow> handle_text data loaded room_id user_id w) of
        (Returned _, w1) \<Rightarrow> receive_loop room_id user_id evs w1
      | (Raised e, w1) \<Rightarrow>
          if e = WebSocketDisconnect then on_disconnect room_id user_id w1
          else (Crashed e, w1))"

definition websocket_endpoint ::
  "websocket \<Rightarrow> string \<Rightarrow> string \<Rightarrow> event list \<Rightarrow> World \<Rightarrow> session \<times> World" where
  "websocket_endpoint ws room_id user_id evs w =
     (case connect ws user_id room_id (manager w, net w) of
        (Raised e, m, n) \<Rightarrow> (Crashed e, w\<lparr>manager := m, net := n\<rparr>)
      | (Returned _, m, n) \<Rightarrow> receive_loop room_id user_id evs (w\<lparr>manager := m, net := n\<rparr>))"

section \<open>Example states\<close>

text \<open>
  A transport on which every write succeeds, and the registry after users \<open>A\<close> and \<open>B\<close>
  have connected to room \<open>r1\<close> over the sockets 1 and 2.
\<close>

definition example_net :: Net where
  "example_net = \<lparr>accepted = [], outbox = [], faults = []\<rparr>"

definition two_members :: ConnectionManager where
  "two_members = \<lparr>active_connections = [(''r1'', [(''A'', 1), (''B'', 2)])],
                  room_participants = [(''r1'', [''A'', ''B''])]\<rparr>"

text \<open>The registry after user \<open>A\<close> alone has connected to room \<open>r1\<close>.\<close>

definition one_member :: ConnectionManager where
  "one_member = \<lparr>active_connections = [(''r1'', [(''A'', 1)])],
                 room_participants = [(''r1'', [''A''])]\<rparr>"

text \<open>
  The registry a connect or a disconnect leaves, and what "exactly one handle, and the
  user once in the room" means on the two dictionaries: the room's connection map has one
  item for the user, holding this handle, and the participant list names the user once.
\<close>

definition after_connect ::
  "websocket \<Rightarrow> string \<Rightarrow> string \<Rightarrow> ConnectionManager \<Rightarrow> Net \<Rightarrow> ConnectionManager" where
  "after_connect ws user_id room_id m n = fst (snd (connect ws user_id room_id (m, n)))"

definition after_disconnect :: "string \<Rightarrow> string \<Rightarrow> ConnectionManager \<Rightarrow> ConnectionManager" where
  "after_disconnect user_id room_id m = snd (disconnect user_id room_id m)"

definition registered_once :: "ConnectionManager \<Rightarrow> string \<Rightarrow> string \<Rightarrow> websocket \<Rightarrow> bool" where
  "registered_once m room_id user_id ws \<longleftrightarrow>
     (\<exists>conns. map_of (active_connections m) room_id = Some conns \<and>
              filter (\<lambda>p. fst p = user_id) conns = [(user_id, ws)]) \<and>
     count_list (members_of m room_id) user_id = 1"

text \<open>
  The items of a room's connection map, none for a room that has no entry, and the items
  that pass the test \<^verbatim>\<open>user_id != exclude_user\<close> of the broadcast loop, in the order of
  the dictionary.
\<close>

definition connections_of :: "ConnectionManager \<Rightarrow> string \<Rightarrow> (string \<times> websocket) list" where
  "connections_of m room_id =
     (case map_of (active_connections m) room_id of None \<Rightarrow> [] | Some conns \<Rightarrow> conns)"

definition targets :: "string option \<Rightarrow> (string \<times> websocket) list \<Rightarrow> (string \<times> websocket) list" where
  "targets exclude_user conns = filter (\<lambda>(user_id, ws). Some user_id \<noteq> exclude_user) conns"

text \<open>
  Three users in one room, and a transport on which every write to socket 2 raises.
\<close>

definition three_members :: ConnectionManager where
  "three_members = \<lparr>active_connections = [(''r1'', [(''A'', 1), (''B'', 2), (''C'', 3)])],
                    room_participants = [(''r1'', [''A'', ''B'', ''C''])]\<rparr>"

definition faulty_net :: Net where
  "faulty_net = \<lparr>accepted = [1, 2, 3], outbox = [], faults = [(2, RuntimeError)]\<rparr>"

text \<open>
  Two frames as clients send them, each with the value \<^verbatim>\<open>json.loads\<close> makes of it: an
  offer for user \<open>B\<close> and a chat message. Then a world with the two users of
  \<open>two_members\<close>, and the notification the handler sends when a connection is gone.
\<close>

definition offer_text :: string where
  \<open>offer_text = ''{"type": "webrtc_offer", "to_user": "B", "offer": {}}''\<close>

definition offer_value :: pyval where
  "offer_value = PyDict [(''type'', PyStr ''webrtc_offer''), (''to_user'', PyStr ''B''),
                         (''offer'', PyDict [])]"

definition chat_text :: string where
  \<open>chat_text = ''{"type": "chat", "text": "hi"}''\<close>

definition chat_value :: pyval where
  "chat_value = PyDict [(''type'', PyStr ''chat''), (''text'', PyStr ''hi'')]"

definition two_world :: World where
  "two_world = \<lparr>manager = two_members, net = example_net, rooms = []\<rparr>"

definition user_disconnected :: "string \<Rightarrow> frame" where
  "user_disconnected user_id =
     Dumps (PyDict [(''type'', PyStr ''user_disconnected''), (''user_id'', PyStr user_id)])"

text \<open>
  An offer posted to \<^verbatim>\<open>/webrtc/offer\<close> for a user \<open>Z\<close> who has no connection, and the
  authenticated user who posts it.
\<close>

definition offer_to_Z :: WebRTCOffer where
  "offer_to_Z = \<lparr>WebRTCOffer.room_id' = ''r1'', from_user = ''A'', to_user = ''Z'', offer = []\<rparr>"

definition user_A :: User where
  "user_A = \<lparr>User.id' = ''A'', email = ''a@example.org'', username = ''a''\<rparr>"

text \<open>
  The update \<^verbatim>\<open>$pull\<close> of \<^verbatim>\<open>leave_room\<close> on one room document. Then a store with one
  room, created by user \<open>X\<close> who is its only participant, a second user \<open>Y\<close> who never
  joined, and the voice status \<open>Y\<close> posts for that room.
\<close>

definition pulled :: "string \<Rightarrow> ChatRoom \<Rightarrow> ChatRoom" where
  "pulled user_id d = d\<lparr>participants := pull user_id (participants d),
                        active_speakers := pull user_id (active_speakers d)\<rparr>"

definition room_r1 :: ChatRoom where
  "room_r1 = \<lparr>ChatRoom.id' = ''r1'', name = None, language = ''en'', level = ''any'',
              max_users = 8, is_private = False, created_by = ''X'', created_at = 0,
              participants = [''X''], active_speakers = []\<rparr>"

definition user_X :: User where
  "user_X = \<lparr>User.id' = ''X'', email = ''x@example.org'', username = ''x''\<rparr>"

definition user_Y :: User where
  "user_Y = \<lparr>User.id' = ''Y'', email = ''y@example.org'', username = ''y''\<rparr>"

definition speaking_Y :: VoiceStatus where
  "speaking_Y = \<lparr>VoiceStatus.room_id' = ''r1'', user_id' = ''Y'', is_speaking = True,
                 is_muted = False\<rparr>"

definition store_world :: World where
  "store_world = \<lparr>manager = init, net = example_net, rooms = [room_r1]\<rparr>"

text \<open>The world of a server that has just started.\<close>

definition empty_world :: World where
  "empty_world = \<lparr>manager = init, net = example_net, rooms = []\<rparr>"

definition offer_to_B :: WebRTCOffer where
  "offer_to_B = \<lparr>WebRTCOffer.room_id' = ''r1'', from_user = ''A'', to_user = ''B'',
                 offer = [(''sdp'', PyStr ''v=0'')]\<rparr>"

definition answer_to_B :: WebRTCAnswer where
  "answer_to_B = \<lparr>WebRTCAnswer.room_id' = ''r1'', from_user = ''A'', to_user = ''B'',
                  answer = [(''sdp'', PyStr ''v=1'')]\<rparr>"

definition candidate_to_B :: ICECandidate where
  "candidate_to_B = \<lparr>ICECandidate.room_id' = ''r1'', from_user = ''A'', to_user = ''B'',
                     candidate = [(''sdpMid'', PyStr ''0'')]\<rparr>"


section \<open>The registry invariant\<close>

text \<open>
  Both dictionaries have the same rooms, no room is empty, and the participant list of a
  room lists the users of its connections once each. Connects and disconnects keep it.
\<close>

lemma map_of_None_iff: "map_of al k = None \<longleftrightarrow> k \<notin> fst ` set al"
  by (simp add: map_of_eq_None_iff)

lemma connect_new_room:
  assumes "map_of (active_connections m) room_id = None" "map_of (room_participants m) room_id = None"
  shows "connect ws user_id room_id (m, n) =
     (case map_of (faults n) ws of
        Some e \<Rightarrow> (Raised e, m, n)
      | None \<Rightarrow>
         (Returned (),
          m\<lparr>active_connections :=
             AList.update room_id [(user_id, ws)] (active_connections m),
           room_participants :=
             AList.update room_id [user_id] (room_participants m)\<rparr>,
          n\<lparr>accepted := accepted n @ [ws]\<rparr>))"
  using assms
  by (simp add: connect_def accept_def AList.update_conv' split: option.splits)

lemma connect_old_room:
  assumes "map_of (active_connections m) room_id = Some conns" "map_of (room_participants m) room_id = Some ps"
  shows "connect ws user_id room_id (m, n) =
     (case map_of (faults n) ws of
        Some e \<Rightarrow> (Raised e, m, n)
      | None \<Rightarrow>
         (Returned (),
          m\<lparr>active_connections :=
             AList.update room_id (AList.update user_id ws conns) (active_connections m),
           room_participants :=
             (if user_id \<in> set ps then room_participants m
              else AList.update room_id (ps @ [user_id]) (room_participants m))\<rparr>,
          n\<lparr>accepted := accepted n @ [ws]\<rparr>))"
  using assms
  by (simp add: connect_def accept_def AList.update_conv' split: option.splits)

lemma inv_room:
  "registry_inv m \<Longrightarrow> map_of (active_connections m) room_id = Some conns \<Longrightarrow>
   conns \<noteq> [] \<and> distinct (map fst conns) \<and>
   (\<exists>ps. map_of (room_participants m) room_id = Some ps \<and> distinct ps \<and> set ps = fst ` set conns)"
  unfolding registry_inv_def by blast

lemma inv_no_room:
  "registry_inv m \<Longrightarrow> map_of (active_connections m) room_id = None \<Longrightarrow>
   map_of (room_participants m) room_id = None"
  unfolding registry_inv_def map_of_None_iff by blast

lemma inv_new_room:
  assumes "registry_inv m" "map_of (active_connections m) room_id = None"
  shows "registry_inv (m\<lparr>active_connections :=
             AList.update room_id [(user_id, ws)] (active_connections m),
           room_participants :=
             AList.update room_id [user_id] (room_participants m)\<rparr>)"
  using assms unfolding registry_inv_def
  by (simp add: AList.update_conv' AList.distinct_update AList.dom_update del: map_of_eq_Some_iff)

lemma inv_old_room:
  assumes "registry_inv m" "map_of (active_connections m) room_id = Some conns"
     "map_of (room_participants m) room_id = Some ps"
  shows "registry_inv (m\<lparr>active_connections :=
             AList.update room_id (AList.update user_id ws conns) (active_connections m),
           room_participants :=
             (if user_id \<in> set ps then room_participants m
              else AList.update room_id (ps @ [user_id]) (room_participants m))\<rparr>)"
proof -
  from inv_room[OF assms(1,2)] assms(3)
  have c: "distinct (map fst conns)" "distinct ps" "set ps = fst ` set conns" by auto
  have k: "room_id \<in> fst ` set (active_connections m)" "room_id \<in> fst ` set (room_participants m)"
    using assms(2,3) by (metis map_of_None_iff option.distinct(1))+
  show ?thesis
    using assms c k unfolding registry_inv_def
    by (auto simp add: AList.update_conv' AList.distinct_update AList.dom_update simp del: map_of_eq_Some_iff
         split: if_splits)
qed

lemma keys_delete: "fst ` set (AList.delete k al) = fst ` set al - {k}"
  using AList.delete_keys[of k al] by (metis set_map set_removeAll)

lemma connect_inv:
  assumes "registry_inv m" "connect ws user_id room_id (m, n) = (r, m', n')"
  shows "registry_inv m'"
proof (cases "map_of (active_connections m) room_id")
  case None
  note connect_new_room[OF None inv_no_room[OF assms(1) None], of ws user_id n]
  with assms(2) inv_new_room[OF assms(1) None, of user_id ws] assms(1)
  show ?thesis by (auto split: option.splits)
next
  case (Some conns)
  from inv_room[OF assms(1) Some] obtain ps where ps: "map_of (room_participants m) room_id = Some ps"
    by blast
  note connect_old_room[OF Some ps, of ws user_id n]
  with assms(2) inv_old_room[OF assms(1) Some ps, of user_id ws] assms(1)
  show ?thesis by (auto split: option.splits)
qed

lemma disconnect_no_room: "map_of (active_connections m) room_id = None \<Longrightarrow> disconnect user_id room_id m = (Returned (), m)"
  by (simp add: disconnect_def)

lemma disconnect_no_user: "map_of (active_connections m) room_id = Some conns \<Longrightarrow> map_of conns user_id = None
   \<Longrightarrow> disconnect user_id room_id m = (Returned (), m)"
  by (simp add: disconnect_def)

lemma disconnect_user:
  assumes "map_of (active_connections m) room_id = Some conns" "map_of conns user_id = Some ws"
    "map_of (room_participants m) room_id = Some ps"
  shows "disconnect user_id room_id m =
    (Returned (),
     if AList.delete user_id conns = []
     then m\<lparr>active_connections := AList.delete room_id (active_connections m),
            room_participants := AList.delete room_id (room_participants m)\<rparr>
     else m\<lparr>active_connections := AList.update room_id (AList.delete user_id conns) (active_connections m),
            room_participants :=
              (if user_id \<in> set ps
               then AList.update room_id (remove1 user_id ps) (room_participants m)
               else room_participants m)\<rparr>)"
  using assms
  by (simp add: disconnect_def AList.delete_update_same Let_def)

lemma inv_drop_room:
  assumes "registry_inv m"
  shows "registry_inv (m\<lparr>active_connections := AList.delete room_id (active_connections m),
            room_participants := AList.delete room_id (room_participants m)\<rparr>)"
  using assms unfolding registry_inv_def
  by (simp add: AList.delete_conv' AList.distinct_delete keys_delete del: map_of_eq_Some_iff)

lemma inv_drop_user:
  assumes "registry_inv m" "map_of (active_connections m) room_id = Some conns"
    "map_of (room_participants m) room_id = Some ps" "AList.delete user_id conns \<noteq> []"
  shows "registry_inv (m\<lparr>active_connections := AList.update room_id (AList.delete user_id conns) (active_connections m),
            room_participants :=
              (if user_id \<in> set ps
               then AList.update room_id (remove1 user_id ps) (room_participants m)
               else room_participants m)\<rparr>)"
proof -
  from inv_room[OF assms(1,2)] assms(3)
  have c: "distinct (map fst conns)" "distinct ps" "set ps = fst ` set conns" by auto
  have k: "room_id \<in> fst ` set (active_connections m)" "room_id \<in> fst ` set (room_participants m)"
    using assms(2,3) by (metis map_of_None_iff option.distinct(1))+
  have e: "user_id \<notin> set ps \<Longrightarrow> AList.delete user_id conns = conns"
    using c by simp
  show ?thesis
    using assms c k e unfolding registry_inv_def
    by (auto simp add: AList.update_conv' AList.distinct_update AList.dom_update
         AList.distinct_delete keys_delete simp del: map_of_eq_Some_iff AList.delete_id
         split: if_splits)
qed

lemma disconnect_inv:
  assumes "registry_inv m" "disconnect user_id room_id m = (r, m')"
  shows "registry_inv m'"
proof (cases "map_of (active_connections m) room_id")
  case None
  with disconnect_no_room[OF None, of user_id] assms show ?thesis by simp
next
  case (Some conns)
  from inv_room[OF assms(1) Some] obtain ps where ps: "map_of (room_participants m) room_id = Some ps"
    by blast
  show ?thesis
  proof (cases "map_of conns user_id")
    case None
    with disconnect_no_user[OF Some None] assms show ?thesis by simp
  next
    case (Some ws)
    note disconnect_user[OF \<open>map_of (active_connections m) room_id = Some conns\<close> Some ps]
    with assms(2) inv_drop_room[OF assms(1), of room_id]
      inv_drop_user[OF assms(1) \<open>map_of (active_connections m) room_id = Some conns\<close> ps, of user_id]
    show ?thesis by (auto split: if_splits)
  qed
qed

lemma init_inv: "registry_inv init"
  by (simp add: registry_inv_def init_def)

lemma reachable_inv: "reachable m \<Longrightarrow> registry_inv m"
  by (induction rule: reachable.induct) (auto intro: init_inv connect_inv disconnect_inv)

section \<open>Reachable registry states\<close>

lemma lookup_Some_iff:
  "(\<exists>u ws. lookup m room_id u = Some ws) \<longleftrightarrow>
   (\<exists>conns. map_of (active_connections m) room_id = Some conns \<and> conns \<noteq> [])"
proof
  assume "\<exists>u ws. lookup m room_id u = Some ws"
  then show "\<exists>conns. map_of (active_connections m) room_id = Some conns \<and> conns \<noteq> []"
    by (auto simp: lookup_def split: option.splits)
next
  assume "\<exists>conns. map_of (active_connections m) room_id = Some conns \<and> conns \<noteq> []"
  then obtain conns where c: "map_of (active_connections m) room_id = Some conns" "conns \<noteq> []"
    by blast
  then obtain u ws rest where "conns = (u, ws) # rest" by (cases conns) auto
  with c show "\<exists>u ws. lookup m room_id u = Some ws"
    by (auto simp: lookup_def)
qed

lemma reachable_two_members: "reachable two_members"
proof -
  have a: "connect 1 ''A'' ''r1'' (init, example_net) =
     (Returned (), \<lparr>active_connections = [(''r1'', [(''A'', 1)])],
                    room_participants = [(''r1'', [''A''])]\<rparr>, example_net\<lparr>accepted := [1]\<rparr>)"
    by (simp add: connect_def accept_def init_def example_net_def)
  have b: "connect 2 ''B'' ''r1'' (\<lparr>active_connections = [(''r1'', [(''A'', 1)])],
                    room_participants = [(''r1'', [''A''])]\<rparr>, example_net) =
     (Returned (), two_members, example_net\<lparr>accepted := [2]\<rparr>)"
    by (simp add: connect_def accept_def two_members_def example_net_def)
  show ?thesis
    by (rule reachable_connect[OF reachable_connect[OF reachable_init a] b])
qed

section \<open>The claims\<close>

text \<open>
  C10. In every registry state that connects and disconnects can reach, the two
  dictionaries have the same room keys, and for every room of the registry the participant
  list holds exactly the user ids keyed in the room's connection map, each of them once.
\<close>

theorem registry_consistent:
  assumes "reachable m"
  shows "fst ` set (active_connections m) = fst ` set (room_participants m) \<and>
         (\<forall>room_id conns. map_of (active_connections m) room_id = Some conns \<longrightarrow>
            set (members_of m room_id) = fst ` set conns \<and> distinct (members_of m room_id))"
proof -
  have inv: "registry_inv m" using assms by (rule reachable_inv)
  have k: "fst ` set (active_connections m) = fst ` set (room_participants m)"
    using inv unfolding registry_inv_def by blast
  have r: "set (members_of m room_id) = fst ` set conns \<and> distinct (members_of m room_id)"
    if "map_of (active_connections m) room_id = Some conns" for room_id conns
  proof -
    from inv_room[OF inv that] obtain ps where
      "map_of (room_participants m) room_id = Some ps" "distinct ps" "set ps = fst ` set conns"
      by blast
    then show ?thesis by (simp add: members_of_def)
  qed
  from k r show ?thesis by blast
qed

theorem registry_consistent_witness:
  "reachable two_members \<and>
   fst ` set (active_connections two_members) = fst ` set (room_participants two_members) \<and>
   set (members_of two_members ''r1'') = {''A'', ''B''} \<and> distinct (members_of two_members ''r1'')"
proof -
  have m: "map_of (active_connections two_members) ''r1'' = Some [(''A'', 1), (''B'', 2)]"
    by (simp add: two_members_def)
  from registry_consistent[OF reachable_two_members] m
  have "set (members_of two_members ''r1'') = fst ` set [(''A'', 1::nat), (''B'', 2)] \<and>
        distinct (members_of two_members ''r1'')"
    and "fst ` set (active_connections two_members) = fst ` set (room_participants two_members)"
    by blast+
  then show ?thesis using reachable_two_members by auto
qed

subsection \<open>What a disconnect leaves\<close>

lemma delete_Nil_iff: "AList.delete u conns = [] \<longleftrightarrow> (\<forall>v. v \<noteq> u \<longrightarrow> map_of conns v = None)"
proof -
  have "AList.delete u conns = [] \<longleftrightarrow> map_of (AList.delete u conns) = Map.empty"
    by simp
  also have "\<dots> \<longleftrightarrow> (\<forall>v. v \<noteq> u \<longrightarrow> map_of conns v = None)"
    by (auto simp: AList.delete_conv' fun_eq_iff)
  finally show ?thesis .
qed

lemma distinct_sole: "distinct ps \<Longrightarrow> set ps = {u} \<Longrightarrow> ps = [u]"
  by (metis distinct.simps(2) empty_iff insert_iff list.set(1) distinct_length_2_or_more neq_Nil_conv)

lemma disconnect_returns:
  assumes "registry_inv m"
  shows "fst (disconnect user_id room_id m) = Returned ()"
proof (cases "map_of (active_connections m) room_id")
  case None
  then show ?thesis by (simp add: disconnect_no_room)
next
  case (Some conns)
  from inv_room[OF assms Some] obtain ps where ps: "map_of (room_participants m) room_id = Some ps"
    by blast
  show ?thesis
  proof (cases "map_of conns user_id")
    case None
    with Some show ?thesis by (simp add: disconnect_no_user)
  next
    case (Some ws)
    from disconnect_user[OF \<open>map_of (active_connections m) room_id = Some conns\<close> Some ps]
    show ?thesis by simp
  qed
qed

lemma disconnect_absent:
  assumes "lookup m room_id user_id = None"
  shows "disconnect user_id room_id m = (Returned (), m)"
proof (cases "map_of (active_connections m) room_id")
  case None
  then show ?thesis by (rule disconnect_no_room)
next
  case (Some conns)
  with assms have "map_of conns user_id = None" by (simp add: lookup_def)
  with Some show ?thesis by (rule disconnect_no_user)
qed

lemma disconnect_lookup:
  assumes "registry_inv m"
  shows "lookup (snd (disconnect user_id room_id m)) r v =
           (if r = room_id \<and> v = user_id then None else lookup m r v)"
proof (cases "lookup m room_id user_id")
  case None
  with disconnect_absent[OF None] show ?thesis by auto
next
  case (Some ws)
  then obtain conns where c: "map_of (active_connections m) room_id = Some conns"
      "map_of conns user_id = Some ws"
    by (auto simp: lookup_def split: option.splits)
  from inv_room[OF assms c(1)] obtain ps where ps: "map_of (room_participants m) room_id = Some ps"
    by blast
  show ?thesis
  proof (cases "AList.delete user_id conns = []")
    case True
    then have "\<forall>v. v \<noteq> user_id \<longrightarrow> map_of conns v = None" by (simp add: delete_Nil_iff)
    with True c show ?thesis
      by (simp add: disconnect_user[OF c ps] lookup_def AList.delete_conv')
  next
    case False
    with c show ?thesis
      by (simp add: disconnect_user[OF c ps] lookup_def AList.delete_conv' AList.update_conv')
  qed
qed

lemma disconnect_members:
  assumes "registry_inv m"
  shows "members_of (snd (disconnect user_id room_id m)) r =
           (if r = room_id then remove1 user_id (members_of m r) else members_of m r)"
proof (cases "map_of (active_connections m) room_id")
  case None
  from inv_no_room[OF assms None] have "members_of m room_id = []" by (simp add: members_of_def)
  with disconnect_no_room[OF None, of user_id] show ?thesis by simp
next
  case (Some conns)
  from inv_room[OF assms Some] obtain ps where ps: "map_of (room_participants m) room_id = Some ps"
    "distinct ps" "set ps = fst ` set conns"
    by blast
  show ?thesis
  proof (cases "map_of conns user_id")
    case None
    then have "user_id \<notin> set ps" using ps(3) by (simp add: map_of_None_iff)
    then have "remove1 user_id ps = ps" by (simp add: remove1_idem)
    with disconnect_no_user[OF Some None] ps(1) show ?thesis by (simp add: members_of_def)
  next
    case (Some ws)
    then have u: "user_id \<in> set ps" using ps(3) by (metis map_of_None_iff option.distinct(1))
    note du = disconnect_user[OF \<open>map_of (active_connections m) room_id = Some conns\<close> Some ps(1)]
    show ?thesis
    proof (cases "AList.delete user_id conns = []")
      case True
      then have "fst ` set conns - {user_id} = {}"
        using keys_delete[of user_id conns] by simp
      with ps(3) u have "set ps = {user_id}" by auto
      with ps(2) have "ps = [user_id]" by (simp add: distinct_sole)
      with True ps(1) show ?thesis
        by (simp add: du members_of_def AList.delete_conv')
    next
      case False
      with u ps(1) show ?thesis
        by (simp add: du members_of_def AList.update_conv')
    qed
  qed
qed

lemma reachable_one_member: "reachable one_member"
proof -
  have "connect 1 ''A'' ''r1'' (init, example_net) =
          (Returned (), one_member, example_net\<lparr>accepted := [1]\<rparr>)"
    by (simp add: connect_def accept_def init_def example_net_def one_member_def)
  with reachable_init show ?thesis by (rule reachable_connect)
qed

text \<open>
  C2. In every reachable registry state a room id is a key of the connection map exactly
  when some user has a handle registered in that room, and disconnecting the only user of
  a room deletes the room's entry from both dictionaries.
\<close>

theorem room_entry_iff_connected:
  assumes "reachable m"
  shows "(room_id \<in> fst ` set (active_connections m) \<longleftrightarrow>
            (\<exists>u ws. lookup m room_id u = Some ws)) \<and>
         (lookup m room_id user_id = Some ws \<and>
            (\<forall>v. v \<noteq> user_id \<longrightarrow> lookup m room_id v = None) \<longrightarrow>
          fst (disconnect user_id room_id m) = Returned () \<and>
          room_id \<notin> fst ` set (active_connections (snd (disconnect user_id room_id m))) \<and>
          room_id \<notin> fst ` set (room_participants (snd (disconnect user_id room_id m))))"
proof -
  have inv: "registry_inv m" using assms by (rule reachable_inv)
  have "room_id \<in> fst ` set (active_connections m) \<longleftrightarrow>
          (\<exists>conns. map_of (active_connections m) room_id = Some conns)"
    using map_of_None_iff[of "active_connections m" room_id] by auto
  also have "\<dots> \<longleftrightarrow> (\<exists>conns. map_of (active_connections m) room_id = Some conns \<and> conns \<noteq> [])"
    using inv_room[OF inv] by blast
  finally have first: "room_id \<in> fst ` set (active_connections m) \<longleftrightarrow>
            (\<exists>u ws. lookup m room_id u = Some ws)"
    by (simp add: lookup_Some_iff)
  have second: "fst (disconnect user_id room_id m) = Returned () \<and>
          room_id \<notin> fst ` set (active_connections (snd (disconnect user_id room_id m))) \<and>
          room_id \<notin> fst ` set (room_participants (snd (disconnect user_id room_id m)))"
    if l: "lookup m room_id user_id = Some ws"
      and sole: "\<forall>v. v \<noteq> user_id \<longrightarrow> lookup m room_id v = None"
  proof -
    from l obtain conns where c: "map_of (active_connections m) room_id = Some conns"
      "map_of conns user_id = Some ws"
      by (auto simp: lookup_def split: option.splits)
    from inv_room[OF inv c(1)] obtain ps where ps: "map_of (room_participants m) room_id = Some ps"
      by blast
    from sole c(1) have "AList.delete user_id conns = []"
      by (simp add: delete_Nil_iff lookup_def)
    then show ?thesis
      by (simp add: disconnect_user[OF c ps] keys_delete)
  qed
  from first second show ?thesis by blast
qed

theorem room_entry_iff_connected_witness:
  "reachable one_member \<and>
   ''r1'' \<in> fst ` set (active_connections one_member) \<and>
   lookup one_member ''r1'' ''A'' = Some 1 \<and>
   fst (disconnect ''A'' ''r1'' one_member) = Returned () \<and>
   ''r1'' \<notin> fst ` set (active_connections (snd (disconnect ''A'' ''r1'' one_member))) \<and>
   ''r1'' \<notin> fst ` set (room_participants (snd (disconnect ''A'' ''r1'' one_member)))"
proof -
  have l: "lookup one_member ''r1'' ''A'' = Some 1"
    by (simp add: lookup_def one_member_def)
  have sole: "\<forall>v. v \<noteq> ''A'' \<longrightarrow> lookup one_member ''r1'' v = None"
    by (simp add: lookup_def one_member_def)
  have k: "''r1'' \<in> fst ` set (active_connections one_member)"
    by (simp add: one_member_def)
  from room_entry_iff_connected[OF reachable_one_member, of "''r1''" "''A''" 1] l sole k
    reachable_one_member
  show ?thesis by blast
qed

subsection \<open>What a connect leaves\<close>

lemma connect_effect:
  assumes inv: "registry_inv m" and ok: "map_of (faults n) ws = None"
  shows "fst (connect ws user_id room_id (m, n)) = Returned () \<and>
      lookup (fst (snd (connect ws user_id room_id (m, n)))) r v =
           (if r = room_id \<and> v = user_id then Some ws else lookup m r v) \<and>
      members_of (fst (snd (connect ws user_id room_id (m, n)))) r =
           (if r = room_id \<and> user_id \<notin> set (members_of m r)
            then members_of m r @ [user_id] else members_of m r) \<and>
      snd (snd (connect ws user_id room_id (m, n))) = n\<lparr>accepted := accepted n @ [ws]\<rparr>"
proof (cases "map_of (active_connections m) room_id")
  case None
  note rp = inv_no_room[OF inv None]
  from None rp ok show ?thesis
    by (auto simp add: connect_new_room[OF None rp] lookup_def members_of_def AList.update_conv')
next
  case (Some conns)
  from inv_room[OF inv Some] obtain ps where ps: "map_of (room_participants m) room_id = Some ps"
    by blast
  from Some ps ok show ?thesis
    by (auto simp add: connect_old_room[OF Some ps] lookup_def members_of_def AList.update_conv')
qed

lemma one_entry: "distinct (map fst conns) \<Longrightarrow> map_of conns u = Some ws \<Longrightarrow>
    filter (\<lambda>p. fst p = u) conns = [(u, ws)]"
proof (induction conns)
  case Nil
  then show ?case by simp
next
  case (Cons p conns)
  show ?case
  proof (cases "fst p = u")
    case True
    with Cons.prems have "u \<notin> fst ` set conns" by auto
    then have "filter (\<lambda>p. fst p = u) conns = []" by (auto simp: filter_empty_conv)
    with True Cons.prems show ?thesis by (cases p) auto
  next
    case False
    with Cons show ?thesis by (cases p) auto
  qed
qed

lemma one_member_entry: "distinct ps \<Longrightarrow> u \<in> set ps \<Longrightarrow> count_list ps u = 1"
  by (induction ps) (auto simp: count_list_0_iff)

lemma after_connect_inv: "registry_inv m \<Longrightarrow> registry_inv (after_connect ws user_id room_id m n)"
  unfolding after_connect_def
  by (rule connect_inv[where r = "fst (connect ws user_id room_id (m, n))"
        and n' = "snd (snd (connect ws user_id room_id (m, n)))"]) simp_all

lemma inv_registered_once:
  assumes "registry_inv m" "lookup m room_id user_id = Some ws"
  shows "registered_once m room_id user_id ws \<and>
         room_id \<in> fst ` set (active_connections m) \<and>
         room_id \<in> fst ` set (room_participants m)"
proof -
  from assms(2) obtain conns where c: "map_of (active_connections m) room_id = Some conns"
      "map_of conns user_id = Some ws"
    by (auto simp: lookup_def split: option.splits)
  from inv_room[OF assms(1) c(1)] obtain ps where ps: "distinct (map fst conns)"
      "map_of (room_participants m) room_id = Some ps" "distinct ps" "set ps = fst ` set conns"
    by blast
  have u: "user_id \<in> set ps" using c(2) ps(4) by (metis map_of_None_iff option.distinct(1))
  have k: "room_id \<in> fst ` set (active_connections m)" "room_id \<in> fst ` set (room_participants m)"
    using c(1) ps(2) by (metis map_of_None_iff option.distinct(1))+
  from one_entry[OF ps(1) c(2)] one_member_entry[OF ps(3) u] c(1) ps(2) k
  show ?thesis by (simp add: registered_once_def members_of_def)
qed

text \<open>
  C5. On a reachable registry, a connect whose socket is accepted returns, stores the
  handle for (room, user) and touches no other pair; the room is then a key of both
  dictionaries, created when it was absent. The user has exactly one item in the room's
  connection map and occurs once in the participant list. A second connect of the same
  pair with another handle leaves exactly that newer handle, and the participant list as
  it was.
\<close>

theorem connect_registers:
  assumes "reachable m" "map_of (faults n) ws = None"
  shows "fst (connect ws user_id room_id (m, n)) = Returned () \<and>
         lookup (after_connect ws user_id room_id m n) room_id user_id = Some ws \<and>
         (\<forall>r v. (r, v) \<noteq> (room_id, user_id) \<longrightarrow>
            lookup (after_connect ws user_id room_id m n) r v = lookup m r v) \<and>
         room_id \<in> fst ` set (active_connections (after_connect ws user_id room_id m n)) \<and>
         room_id \<in> fst ` set (room_participants (after_connect ws user_id room_id m n)) \<and>
         registered_once (after_connect ws user_id room_id m n) room_id user_id ws \<and>
         (\<forall>n2 ws2. map_of (faults n2) ws2 = None \<longrightarrow>
            lookup (after_connect ws2 user_id room_id (after_connect ws user_id room_id m n) n2)
              room_id user_id = Some ws2 \<and>
            registered_once
              (after_connect ws2 user_id room_id (after_connect ws user_id room_id m n) n2)
              room_id user_id ws2 \<and>
            members_of (after_connect ws2 user_id room_id (after_connect ws user_id room_id m n) n2)
              room_id = members_of (after_connect ws user_id room_id m n) room_id)"
proof -
  let ?m1 = "after_connect ws user_id room_id m n"
  have inv: "registry_inv m" using assms(1) by (rule reachable_inv)
  have inv1: "registry_inv ?m1" using inv by (rule after_connect_inv)
  note e = connect_effect[OF inv assms(2), of user_id room_id, folded after_connect_def]
  have l1: "lookup ?m1 room_id user_id = Some ws" using e by simp
  have fr: "\<forall>r v. (r, v) \<noteq> (room_id, user_id) \<longrightarrow> lookup ?m1 r v = lookup m r v"
    using e by auto
  have twice: "lookup (after_connect ws2 user_id room_id ?m1 n2) room_id user_id = Some ws2 \<and>
            registered_once (after_connect ws2 user_id room_id ?m1 n2) room_id user_id ws2 \<and>
            members_of (after_connect ws2 user_id room_id ?m1 n2) room_id = members_of ?m1 room_id"
    if ok2: "map_of (faults n2) ws2 = None" for n2 ws2
  proof -
    let ?m2 = "after_connect ws2 user_id room_id ?m1 n2"
    note e2 = connect_effect[OF inv1 ok2, of user_id room_id, folded after_connect_def]
    have l2: "lookup ?m2 room_id user_id = Some ws2" using e2 by simp
    have "user_id \<in> set (members_of ?m1 room_id)"
      using e[of room_id] by auto
    then have "members_of ?m2 room_id = members_of ?m1 room_id"
      using e2[of room_id] by simp
    with l2 inv_registered_once[OF after_connect_inv[OF inv1] l2] show ?thesis by simp
  qed
  from e l1 fr inv_registered_once[OF inv1 l1] twice show ?thesis by blast
qed

theorem connect_registers_witness:
  "reachable init \<and> map_of (faults example_net) 1 = None \<and> map_of (faults example_net) 2 = None \<and>
   fst (connect 1 ''A'' ''r1'' (init, example_net)) = Returned () \<and>
   lookup (after_connect 1 ''A'' ''r1'' init example_net) ''r1'' ''A'' = Some 1 \<and>
   registered_once (after_connect 1 ''A'' ''r1'' init example_net) ''r1'' ''A'' 1 \<and>
   lookup (after_connect 2 ''A'' ''r1'' (after_connect 1 ''A'' ''r1'' init example_net) example_net)
     ''r1'' ''A'' = Some 2 \<and>
   registered_once
     (after_connect 2 ''A'' ''r1'' (after_connect 1 ''A'' ''r1'' init example_net) example_net)
     ''r1'' ''A'' 2"
proof -
  have h1: "map_of (faults example_net) 1 = None" and h2: "map_of (faults example_net) 2 = None"
    by (simp_all add: example_net_def)
  from connect_registers[OF reachable_init h1, of "''A''" "''r1''"] h1 h2 reachable_init
  show ?thesis by blast
qed

text \<open>
  C6. Disconnecting a pair that is not registered returns and leaves the registry as it
  is. On a reachable registry a disconnect returns, removes the pair and no other, and
  removes the user from the room's participant list; when the user was the only one with
  a handle in the room, the room leaves both dictionaries; when others remain, the room
  stays and \<open>members_of\<close> gives exactly the others.
\<close>

theorem disconnect_unregisters:
  "(lookup m room_id user_id = None \<longrightarrow> disconnect user_id room_id m = (Returned (), m)) \<and>
   (reachable m \<longrightarrow>
      fst (disconnect user_id room_id m) = Returned () \<and>
      lookup (after_disconnect user_id room_id m) room_id user_id = None \<and>
      (\<forall>r v. (r, v) \<noteq> (room_id, user_id) \<longrightarrow>
         lookup (after_disconnect user_id room_id m) r v = lookup m r v) \<and>
      members_of (after_disconnect user_id room_id m) room_id =
        remove1 user_id (members_of m room_id) \<and>
      user_id \<notin> set (members_of (after_disconnect user_id room_id m) room_id) \<and>
      (lookup m room_id user_id \<noteq> None \<and> (\<forall>v. v \<noteq> user_id \<longrightarrow> lookup m room_id v = None) \<longrightarrow>
         room_id \<notin> fst ` set (active_connections (after_disconnect user_id room_id m)) \<and>
         room_id \<notin> fst ` set (room_participants (after_disconnect user_id room_id m))) \<and>
      ((\<exists>v. v \<noteq> user_id \<and> lookup m room_id v \<noteq> None) \<longrightarrow>
         room_id \<in> fst ` set (active_connections (after_disconnect user_id room_id m)) \<and>
         room_id \<in> fst ` set (room_participants (after_disconnect user_id room_id m)) \<and>
         set (members_of (after_disconnect user_id room_id m) room_id) =
           {v. v \<noteq> user_id \<and> lookup m room_id v \<noteq> None}))"
proof -
  let ?m1 = "after_disconnect user_id room_id m"
  have absent: "disconnect user_id room_id m = (Returned (), m)"
    if "lookup m room_id user_id = None"
    using that by (rule disconnect_absent)
  have present: "fst (disconnect user_id room_id m) = Returned () \<and>
      lookup ?m1 room_id user_id = None \<and>
      (\<forall>r v. (r, v) \<noteq> (room_id, user_id) \<longrightarrow> lookup ?m1 r v = lookup m r v) \<and>
      members_of ?m1 room_id = remove1 user_id (members_of m room_id) \<and>
      user_id \<notin> set (members_of ?m1 room_id) \<and>
      (lookup m room_id user_id \<noteq> None \<and> (\<forall>v. v \<noteq> user_id \<longrightarrow> lookup m room_id v = None) \<longrightarrow>
         room_id \<notin> fst ` set (active_connections ?m1) \<and>
         room_id \<notin> fst ` set (room_participants ?m1)) \<and>
      ((\<exists>v. v \<noteq> user_id \<and> lookup m room_id v \<noteq> None) \<longrightarrow>
         room_id \<in> fst ` set (active_connections ?m1) \<and>
         room_id \<in> fst ` set (room_participants ?m1) \<and>
         set (members_of ?m1 room_id) = {v. v \<noteq> user_id \<and> lookup m room_id v \<noteq> None})"
    if re: "reachable m"
  proof -
    have inv: "registry_inv m" using re by (rule reachable_inv)
    have inv1: "registry_inv ?m1"
      unfolding after_disconnect_def
      by (rule disconnect_inv[OF inv, where r = "fst (disconnect user_id room_id m)"]) simp
    note lk = disconnect_lookup[OF inv, of user_id room_id, folded after_disconnect_def]
    note mb = disconnect_members[OF inv, of user_id room_id, folded after_disconnect_def]
    have mem: "set (members_of m' r) = {v. lookup m' r v \<noteq> None} \<and> distinct (members_of m' r)"
      if "registry_inv m'" for m' r
    proof (cases "map_of (active_connections m') r")
      case None
      with inv_no_room[OF that None] show ?thesis by (simp add: members_of_def lookup_def)
    next
      case (Some conns)
      from inv_room[OF that Some] obtain ps where
        "map_of (room_participants m') r = Some ps" "distinct ps" "set ps = fst ` set conns"
        by blast
      with Some show ?thesis
        by (auto simp: members_of_def lookup_def map_of_None_iff)
    qed
    have a: "fst (disconnect user_id room_id m) = Returned ()"
      using inv by (rule disconnect_returns)
    have b: "lookup ?m1 room_id user_id = None" using lk by simp
    have c: "\<forall>r v. (r, v) \<noteq> (room_id, user_id) \<longrightarrow> lookup ?m1 r v = lookup m r v"
      using lk by auto
    have d: "members_of ?m1 room_id = remove1 user_id (members_of m room_id)" using mb by simp
    have e: "user_id \<notin> set (members_of ?m1 room_id)" using mem[OF inv1, of room_id] b by auto
    have f: "room_id \<notin> fst ` set (active_connections ?m1) \<and>
         room_id \<notin> fst ` set (room_participants ?m1)"
      if "lookup m room_id user_id \<noteq> None" "\<forall>v. v \<noteq> user_id \<longrightarrow> lookup m room_id v = None"
    proof -
      from that lk have "\<forall>v. lookup ?m1 room_id v = None" by auto
      then have "\<not> (\<exists>conns. map_of (active_connections ?m1) room_id = Some conns \<and> conns \<noteq> [])"
        using lookup_Some_iff[of ?m1 room_id] by simp
      with inv_room[OF inv1] have n: "map_of (active_connections ?m1) room_id = None"
        by (cases "map_of (active_connections ?m1) room_id") auto
      from n inv_no_room[OF inv1 n] show ?thesis by (simp add: map_of_None_iff)
    qed
    have g: "room_id \<in> fst ` set (active_connections ?m1) \<and>
         room_id \<in> fst ` set (room_participants ?m1) \<and>
         set (members_of ?m1 room_id) = {v. v \<noteq> user_id \<and> lookup m room_id v \<noteq> None}"
      if "\<exists>v. v \<noteq> user_id \<and> lookup m room_id v \<noteq> None"
    proof -
      from that obtain v y where v: "v \<noteq> user_id" "lookup m room_id v = Some y" by auto
      then have "lookup ?m1 room_id v = Some y" using lk by simp
      from inv_registered_once[OF inv1 this] mem[OF inv1, of room_id] lk
      show ?thesis by auto
    qed
    from a b c d e f g show ?thesis by blast
  qed
  from absent present show ?thesis by blast
qed

theorem disconnect_unregisters_witness:
  "lookup two_members ''r1'' ''C'' = None \<and>
   disconnect ''C'' ''r1'' two_members = (Returned (), two_members) \<and>
   reachable two_members \<and> reachable one_member \<and>
   lookup one_member ''r1'' ''A'' = Some 1 \<and>
   ''r1'' \<notin> fst ` set (active_connections (after_disconnect ''A'' ''r1'' one_member)) \<and>
   lookup two_members ''r1'' ''A'' = Some 1 \<and>
   lookup (after_disconnect ''B'' ''r1'' two_members) ''r1'' ''B'' = None \<and>
   ''r1'' \<in> fst ` set (active_connections (after_disconnect ''B'' ''r1'' two_members)) \<and>
   members_of (after_disconnect ''B'' ''r1'' two_members) ''r1'' = [''A'']"
proof -
  have c: "lookup two_members ''r1'' ''C'' = None"
    by (simp add: lookup_def two_members_def)
  have a: "lookup one_member ''r1'' ''A'' \<noteq> None"
    "\<forall>v. v \<noteq> ''A'' \<longrightarrow> lookup one_member ''r1'' v = None"
    by (simp_all add: lookup_def one_member_def)
  have b: "\<exists>v. v \<noteq> ''B'' \<and> lookup two_members ''r1'' v \<noteq> None"
    by (rule exI[of _ "''A''"]) (simp add: lookup_def two_members_def)
  have l: "lookup one_member ''r1'' ''A'' = Some 1" "lookup two_members ''r1'' ''A'' = Some 1"
    by (simp_all add: lookup_def one_member_def two_members_def)
  have mb: "remove1 ''B'' (members_of two_members ''r1'') = [''A'']"
    by (simp add: members_of_def two_members_def)
  from disconnect_unregisters[of two_members "''r1''" "''C''"]
    disconnect_unregisters[of one_member "''r1''" "''A''"]
    disconnect_unregisters[of two_members "''r1''" "''B''"]
    c a b l mb reachable_two_members reachable_one_member
  show ?thesis by simp
qed

subsection \<open>What a broadcast writes\<close>

lemma fan_out_outbox:
  "fan_out message exclude_user conns n =
     n\<lparr>outbox := outbox n @
          map (\<lambda>(u, ws). (ws, message))
            (filter (\<lambda>(u, ws). map_of (faults n) ws = None) (targets exclude_user conns))\<rparr>"
proof (induction conns arbitrary: n)
  case Nil
  then show ?case by (simp add: targets_def)
next
  case (Cons p conns)
  obtain u ws where p: "p = (u, ws)" by (cases p)
  show ?case
    unfolding p
    by (simp add: Cons.IH send_text_def targets_def split: option.splits)
qed

lemma broadcast_outbox:
  "broadcast_to_room message room_id exclude_user m n =
     (Returned (),
      n\<lparr>outbox := outbox n @
           map (\<lambda>(u, ws). (ws, message))
             (filter (\<lambda>(u, ws). map_of (faults n) ws = None)
                (targets exclude_user (connections_of m room_id)))\<rparr>)"
  by (simp add: broadcast_to_room_def connections_of_def fan_out_outbox targets_def
      split: option.splits)

lemma targets_keys:
  "map fst (targets exclude_user conns) = filter (\<lambda>u. Some u \<noteq> exclude_user) (map fst conns)"
  by (induction conns) (auto simp: targets_def)

lemma targets_length:
  assumes "distinct (map fst conns)"
  shows "length (targets exclude_user conns) =
           (if \<exists>u. exclude_user = Some u \<and> u \<in> fst ` set conns
            then length conns - 1 else length conns)"
proof (cases exclude_user)
  case None
  then show ?thesis by (simp add: targets_def)
next
  case (Some x)
  have "length (filter (\<lambda>u. u \<noteq> x) ks) = (if x \<in> set ks then length ks - 1 else length ks)"
    if "distinct ks" for ks :: "string list"
    using that
  proof (induction ks)
    case Nil
    then show ?case by simp
  next
    case (Cons a ks)
    show ?case
    proof (cases "a = x")
      case True
      with Cons.prems have "filter (\<lambda>u. u \<noteq> x) ks = ks" by (auto simp add: filter_id_conv)
      with True show ?thesis by simp
    next
      case False
      with Cons show ?thesis
        using length_pos_if_in_set[of x ks] by auto
    qed
  qed
  from this[OF assms] Some show ?thesis
    using targets_keys[of exclude_user conns, THEN arg_cong, of length]
    by simp
qed

lemma connections_of_inv:
  assumes "registry_inv m"
  shows "distinct (map fst (connections_of m room_id)) \<and>
         set (map fst (connections_of m room_id)) = set (members_of m room_id) \<and>
         length (connections_of m room_id) = length (members_of m room_id)"
proof (cases "map_of (active_connections m) room_id")
  case None
  with inv_no_room[OF assms None] show ?thesis by (simp add: connections_of_def members_of_def)
next
  case (Some conns)
  from inv_room[OF assms Some] obtain ps where ps: "distinct (map fst conns)"
    "map_of (room_participants m) room_id = Some ps" "distinct ps" "set ps = fst ` set conns"
    by blast
  then have "length ps = length (map fst conns)"
    by (metis distinct_card set_map)
  with Some ps show ?thesis by (simp add: connections_of_def members_of_def)
qed

text \<open>
  C3. A broadcast to a room of a reachable registry returns and writes the message, in
  dictionary order, to the handles of the room's members other than the excluded user,
  leaving out only the handles whose write fails. These members are each addressed once;
  there are as many of them as the room has members when the excluded user is not one of
  them (or is None), and one fewer when it is; the excluded user is never among them. When
  no write fails, every one of them gets the message.
\<close>

theorem broadcast_recipients:
  assumes "reachable m"
  shows "broadcast_to_room message room_id exclude_user m n =
           (Returned (),
            n\<lparr>outbox := outbox n @
                 map (\<lambda>(u, ws). (ws, message))
                   (filter (\<lambda>(u, ws). map_of (faults n) ws = None)
                      (targets exclude_user (connections_of m room_id)))\<rparr>) \<and>
         distinct (map fst (targets exclude_user (connections_of m room_id))) \<and>
         set (map fst (targets exclude_user (connections_of m room_id))) =
           {u \<in> set (members_of m room_id). Some u \<noteq> exclude_user} \<and>
         length (targets exclude_user (connections_of m room_id)) =
           (if \<exists>u. exclude_user = Some u \<and> u \<in> set (members_of m room_id)
            then length (members_of m room_id) - 1 else length (members_of m room_id)) \<and>
         (\<forall>u ws. exclude_user = Some u \<longrightarrow>
            (u, ws) \<notin> set (targets exclude_user (connections_of m room_id))) \<and>
         ((\<forall>(u, ws) \<in> set (connections_of m room_id). map_of (faults n) ws = None) \<longrightarrow>
            outbox (snd (broadcast_to_room message room_id exclude_user m n)) =
              outbox n @ map (\<lambda>(u, ws). (ws, message))
                           (targets exclude_user (connections_of m room_id)))"
proof -
  have inv: "registry_inv m" using assms by (rule reachable_inv)
  note ci = connections_of_inv[OF inv, of room_id]
  have a: "distinct (map fst (targets exclude_user (connections_of m room_id)))"
    using ci by (simp add: targets_keys)
  have b: "set (map fst (targets exclude_user (connections_of m room_id))) =
           {u \<in> set (members_of m room_id). Some u \<noteq> exclude_user}"
    using ci by (auto simp: targets_keys)
  have c: "length (targets exclude_user (connections_of m room_id)) =
           (if \<exists>u. exclude_user = Some u \<and> u \<in> set (members_of m room_id)
            then length (members_of m room_id) - 1 else length (members_of m room_id))"
    using ci targets_length[of "connections_of m room_id" exclude_user] by auto
  have d: "\<forall>u ws. exclude_user = Some u \<longrightarrow>
            (u, ws) \<notin> set (targets exclude_user (connections_of m room_id))"
    by (simp add: targets_def)
  have e: "outbox (snd (broadcast_to_room message room_id exclude_user m n)) =
              outbox n @ map (\<lambda>(u, ws). (ws, message))
                           (targets exclude_user (connections_of m room_id))"
    if "\<forall>(u, ws) \<in> set (connections_of m room_id). map_of (faults n) ws = None"
  proof -
    from that have "\<forall>x \<in> set (targets exclude_user (connections_of m room_id)).
                      (\<lambda>(u, ws). map_of (faults n) ws = None) x"
      by (auto simp: targets_def)
    then have "filter (\<lambda>(u, ws). map_of (faults n) ws = None)
                      (targets exclude_user (connections_of m room_id)) =
                    targets exclude_user (connections_of m room_id)"
      by (rule filter_True)
    then show ?thesis by (simp add: broadcast_outbox)
  qed
  from a b c d e broadcast_outbox[of message room_id exclude_user m n] show ?thesis by blast
qed

theorem broadcast_recipients_witness:
  "reachable two_members \<and>
   connections_of two_members ''r1'' = [(''A'', 1), (''B'', 2)] \<and>
   faults example_net = [] \<and>
   targets (Some ''A'') (connections_of two_members ''r1'') = [(''B'', 2)] \<and>
   length (members_of two_members ''r1'') = 2 \<and>
   outbox (snd (broadcast_to_room (Raw chat_text) ''r1'' (Some ''A'') two_members example_net)) =
     [(2, Raw chat_text)]"
proof -
  have h: "\<forall>(u, ws) \<in> set (connections_of two_members ''r1''). map_of (faults example_net) ws = None"
    by (simp add: example_net_def)
  have t: "targets (Some ''A'') (connections_of two_members ''r1'') = [(''B'', 2)]"
    by (simp add: targets_def connections_of_def two_members_def)
  have l: "length (members_of two_members ''r1'') = 2"
    by (simp add: members_of_def two_members_def)
  have o: "outbox example_net = []" "map_of (faults example_net) 2 = None"
    "faults example_net = []"
    by (simp_all add: example_net_def)
  have c: "connections_of two_members ''r1'' = [(''A'', 1), (''B'', 2)]"
    by (simp add: connections_of_def two_members_def)
  from broadcast_recipients[OF reachable_two_members, of "Raw chat_text" "''r1''" "Some ''A''" example_net]
    h t l o c reachable_two_members
  show ?thesis by simp
qed

text \<open>
  C7. For every registry and every transport, whatever writes fail: the broadcast returns
  without raising, every member other than the excluded user whose handle accepts the
  write gets the message, in the order of a run without failures, and a session that relays
  a frame which is not an offer, an answer or an ICE candidate gets no exception from it.
\<close>

theorem broadcast_swallows_failures:
  "fst (broadcast_to_room message room_id exclude_user m n) = Returned () \<and>
   faults (snd (broadcast_to_room message room_id exclude_user m n)) = faults n \<and>
   outbox (snd (broadcast_to_room message room_id exclude_user m n)) =
     outbox n @ map (\<lambda>(u, ws). (ws, message))
                  (filter (\<lambda>(u, ws). map_of (faults n) ws = None)
                     (targets exclude_user (connections_of m room_id))) \<and>
   (\<forall>(u, ws) \<in> set (targets exclude_user (connections_of m room_id)).
      map_of (faults n) ws = None \<longrightarrow>
      (ws, message) \<in> set (outbox (snd (broadcast_to_room message room_id exclude_user m n)))) \<and>
   (getitem message_data ''type'' = Returned ty \<and>
    ty \<notin> {PyStr ''webrtc_offer'', PyStr ''webrtc_answer'', PyStr ''ice_candidate''} \<longrightarrow>
      fst (handle_text data (Returned message_data) room_id user_id w) = Returned ())"
proof -
  have "fst (handle_text data (Returned message_data) room_id user_id w) = Returned ()"
    if "getitem message_data ''type'' = Returned ty"
      "ty \<notin> {PyStr ''webrtc_offer'', PyStr ''webrtc_answer'', PyStr ''ice_candidate''}"
    using that by (simp add: handle_text_def broadcast_outbox)
  then show ?thesis
    by (auto simp: broadcast_outbox)
qed

theorem broadcast_swallows_failures_witness:
  "(''B'', 2) \<in> set (targets (Some ''A'') (connections_of three_members ''r1'')) \<and>
   map_of (faults faulty_net) 2 = Some RuntimeError \<and>
   (''C'', 3) \<in> set (targets (Some ''A'') (connections_of three_members ''r1'')) \<and>
   map_of (faults faulty_net) 3 = None \<and>
   fst (broadcast_to_room (Raw chat_text) ''r1'' (Some ''A'') three_members faulty_net) = Returned () \<and>
   (3, Raw chat_text) \<in>
     set (outbox (snd (broadcast_to_room (Raw chat_text) ''r1'' (Some ''A'') three_members faulty_net))) \<and>
   getitem chat_value ''type'' = Returned (PyStr ''chat'') \<and>
   fst (handle_text chat_text (Returned chat_value) ''r1'' ''A''
         \<lparr>manager = three_members, net = faulty_net, rooms = []\<rparr>) = Returned ()"
proof -
  have t: "targets (Some ''A'') (connections_of three_members ''r1'') = [(''B'', 2), (''C'', 3)]"
    by (simp add: targets_def connections_of_def three_members_def)
  have f: "map_of (faults faulty_net) 2 = Some RuntimeError" "map_of (faults faulty_net) 3 = None"
    by (simp_all add: faulty_net_def)
  have g: "getitem chat_value ''type'' = Returned (PyStr ''chat'')"
    by (simp add: chat_value_def)
  from broadcast_swallows_failures[of "Raw chat_text" "''r1''" "Some ''A''" three_members faulty_net
      chat_value "PyStr ''chat''" chat_text "''A''"
      "\<lparr>manager = three_members, net = faulty_net, rooms = []\<rparr>"] t f g
  show ?thesis by simp
qed

subsection \<open>Relaying to one user\<close>

lemma relay_string_target:
  assumes "getitem message_data ''to_user'' = Returned (PyStr target)"
  shows "relay data message_data room_id w =
           (case lookup (manager w) room_id target of
              None \<Rightarrow> (Returned (), w)
            | Some ws \<Rightarrow> (fst (send_text ws (Raw data) (net w)),
                           w\<lparr>net := snd (send_text ws (Raw data) (net w))\<rparr>))"
  using assms
  by (simp add: relay_def send_personal_message_def lookup_def split: option.splits prod.splits)

lemma handle_text_targeted:
  assumes "getitem message_data ''type'' = Returned (PyStr ty)"
    "ty \<in> {''webrtc_offer'', ''webrtc_answer'', ''ice_candidate''}"
  shows "handle_text data (Returned message_data) room_id user_id w =
           relay data message_data room_id w"
  using assms by (auto simp: handle_text_def)

lemma personal_absent:
  assumes "lookup m room_id target = None"
  shows "send_personal_message message (PyStr target) room_id m n = (Returned (), n)"
  using assms by (simp add: send_personal_message_def lookup_def split: option.splits)

lemma personal_present:
  assumes "lookup m room_id target = Some ws"
  shows "send_personal_message message (PyStr target) room_id m n = send_text ws message n"
  using assms by (auto simp: send_personal_message_def lookup_def split: option.splits)

lemma send_text_cases:
  "send_text ws message n =
     (case map_of (faults n) ws of
        Some e \<Rightarrow> (Raised e, n)
      | None \<Rightarrow> (Returned (), n\<lparr>outbox := outbox n @ [(ws, message)]\<rparr>))"
  by (simp add: send_text_def)

text \<open>
  C4. A frame whose type is \<^verbatim>\<open>webrtc_offer\<close>, \<^verbatim>\<open>webrtc_answer\<close> or
  \<^verbatim>\<open>ice_candidate\<close> and whose \<^verbatim>\<open>to_user\<close> is a string: when that user has a handle in
  the room, the handler does one thing, a write of the frame's own text to that handle,
  and when the write succeeds the outbox grows by exactly this one frame; when the user has
  no handle in the room, nothing is written, the world is unchanged, the handler gets no
  exception and its loop goes on. The three relay endpoints do the same with the frame they
  build, which holds the type, the sender and the submitted offer, answer or candidate as
  it came: with a handle registered for the target they do one write of that frame to that
  handle and, when it succeeds, answer with their success message; with no handle for the
  target they answer with their success message and leave the world unchanged.
\<close>

theorem targeted_relay:
  assumes "getitem message_data ''type'' = Returned (PyStr ty)"
    and "ty \<in> {''webrtc_offer'', ''webrtc_answer'', ''ice_candidate''}"
    and "getitem message_data ''to_user'' = Returned (PyStr target)"
  shows "(lookup (manager w) room_id target = Some ws \<longrightarrow>
            handle_text data (Returned message_data) room_id user_id w =
              (fst (send_text ws (Raw data) (net w)),
               w\<lparr>net := snd (send_text ws (Raw data) (net w))\<rparr>)) \<and>
         (lookup (manager w) room_id target = Some ws \<and> map_of (faults (net w)) ws = None \<longrightarrow>
            handle_text data (Returned message_data) room_id user_id w =
              (Returned (), w\<lparr>net := (net w)\<lparr>outbox := outbox (net w) @ [(ws, Raw data)]\<rparr>\<rparr>)) \<and>
         (lookup (manager w) room_id target = None \<longrightarrow>
            handle_text data (Returned message_data) room_id user_id w = (Returned (), w) \<and>
            receive_loop room_id user_id (Text data (Returned message_data) # evs) w =
              receive_loop room_id user_id evs w) \<and>
         (lookup (manager w) (WebRTCOffer.room_id' offer_data) (WebRTCOffer.to_user offer_data) = None \<longrightarrow>
            send_offer offer_data current_user w = (Returned ''Offer sent'', w)) \<and>
         (lookup (manager w) (WebRTCAnswer.room_id' answer_data) (WebRTCAnswer.to_user answer_data) = None \<longrightarrow>
            send_answer answer_data current_user w = (Returned ''Answer sent'', w)) \<and>
         (lookup (manager w) (ICECandidate.room_id' candidate_data) (ICECandidate.to_user candidate_data) = None \<longrightarrow>
            send_ice_candidate candidate_data current_user w = (Returned ''ICE candidate sent'', w)) \<and>
         (lookup (manager w) (WebRTCOffer.room_id' offer_data) (WebRTCOffer.to_user offer_data) = Some ws \<longrightarrow>
            send_offer offer_data current_user w =
              (case map_of (faults (net w)) ws of
                 Some e \<Rightarrow> (Raised e, w)
               | None \<Rightarrow>
                   (Returned ''Offer sent'',
                    w\<lparr>net := (net w)\<lparr>outbox := outbox (net w) @
                      [(ws, Dumps (PyDict [(''type'', PyStr ''webrtc_offer''),
                                           (''from_user'', PyStr (WebRTCOffer.from_user offer_data)),
                                           (''offer'', PyDict (offer offer_data))]))]\<rparr>\<rparr>))) \<and>
         (lookup (manager w) (WebRTCAnswer.room_id' answer_data) (WebRTCAnswer.to_user answer_data) = Some ws \<longrightarrow>
            send_answer answer_data current_user w =
              (case map_of (faults (net w)) ws of
                 Some e \<Rightarrow> (Raised e, w)
               | None \<Rightarrow>
                   (Returned ''Answer sent'',
                    w\<lparr>net := (net w)\<lparr>outbox := outbox (net w) @
                      [(ws, Dumps (PyDict [(''type'', PyStr ''webrtc_answer''),
                                           (''from_user'', PyStr (WebRTCAnswer.from_user answer_data)),
                                           (''answer'', PyDict (answer answer_data))]))]\<rparr>\<rparr>))) \<and>
         (lookup (manager w) (ICECandidate.room_id' candidate_data) (ICECandidate.to_user candidate_data) = Some ws \<longrightarrow>
            send_ice_candidate candidate_data current_user w =
              (case map_of (faults (net w)) ws of
                 Some e \<Rightarrow> (Raised e, w)
               | None \<Rightarrow>
                   (Returned ''ICE candidate sent'',
                    w\<lparr>net := (net w)\<lparr>outbox := outbox (net w) @
                      [(ws, Dumps (PyDict [(''type'', PyStr ''ice_candidate''),
                                           (''from_user'', PyStr (ICECandidate.from_user candidate_data)),
                                           (''candidate'', PyDict (candidate candidate_data))]))]\<rparr>\<rparr>)))"
proof -
  note h = handle_text_targeted[OF assms(1,2), of data room_id user_id w]
    relay_string_target[OF assms(3), of data room_id w]
  have a: "handle_text data (Returned message_data) room_id user_id w =
              (fst (send_text ws (Raw data) (net w)),
               w\<lparr>net := snd (send_text ws (Raw data) (net w))\<rparr>)"
    if "lookup (manager w) room_id target = Some ws"
    using that h by simp
  have b: "handle_text data (Returned message_data) room_id user_id w =
              (Returned (), w\<lparr>net := (net w)\<lparr>outbox := outbox (net w) @ [(ws, Raw data)]\<rparr>\<rparr>)"
    if "lookup (manager w) room_id target = Some ws" "map_of (faults (net w)) ws = None"
    using that h by (simp add: send_text_def)
  have c: "handle_text data (Returned message_data) room_id user_id w = (Returned (), w) \<and>
            receive_loop room_id user_id (Text data (Returned message_data) # evs) w =
              receive_loop room_id user_id evs w"
    if "lookup (manager w) room_id target = None"
    using that h by simp
  have d: "send_offer offer_data current_user w = (Returned ''Offer sent'', w)"
    if "lookup (manager w) (WebRTCOffer.room_id' offer_data) (WebRTCOffer.to_user offer_data) = None"
    by (simp add: send_offer_def personal_absent[OF that])
  have e: "send_answer answer_data current_user w = (Returned ''Answer sent'', w)"
    if "lookup (manager w) (WebRTCAnswer.room_id' answer_data) (WebRTCAnswer.to_user answer_data) = None"
    by (simp add: send_answer_def personal_absent[OF that])
  have f: "send_ice_candidate candidate_data current_user w = (Returned ''ICE candidate sent'', w)"
    if "lookup (manager w) (ICECandidate.room_id' candidate_data) (ICECandidate.to_user candidate_data) = None"
    by (simp add: send_ice_candidate_def personal_absent[OF that])
  have d': "send_offer offer_data current_user w =
              (case map_of (faults (net w)) ws of
                 Some e \<Rightarrow> (Raised e, w)
               | None \<Rightarrow>
                   (Returned ''Offer sent'',
                    w\<lparr>net := (net w)\<lparr>outbox := outbox (net w) @
                      [(ws, Dumps (PyDict [(''type'', PyStr ''webrtc_offer''),
                                           (''from_user'', PyStr (WebRTCOffer.from_user offer_data)),
                                           (''offer'', PyDict (offer offer_data))]))]\<rparr>\<rparr>))"
    if "lookup (manager w) (WebRTCOffer.room_id' offer_data) (WebRTCOffer.to_user offer_data) = Some ws"
    by (simp add: send_offer_def personal_present[OF that] send_text_cases split: option.splits)
  have e': "send_answer answer_data current_user w =
              (case map_of (faults (net w)) ws of
                 Some e \<Rightarrow> (Raised e, w)
               | None \<Rightarrow>
                   (Returned ''Answer sent'',
                    w\<lparr>net := (net w)\<lparr>outbox := outbox (net w) @
                      [(ws, Dumps (PyDict [(''type'', PyStr ''webrtc_answer''),
                                           (''from_user'', PyStr (WebRTCAnswer.from_user answer_data)),
                                           (''answer'', PyDict (answer answer_data))]))]\<rparr>\<rparr>))"
    if "lookup (manager w) (WebRTCAnswer.room_id' answer_data) (WebRTCAnswer.to_user answer_data) = Some ws"
    by (simp add: send_answer_def personal_present[OF that] send_text_cases split: option.splits)
  have f': "send_ice_candidate candidate_data current_user w =
              (case map_of (faults (net w)) ws of
                 Some e \<Rightarrow> (Raised e, w)
               | None \<Rightarrow>
                   (Returned ''ICE candidate sent'',
                    w\<lparr>net := (net w)\<lparr>outbox := outbox (net w) @
                      [(ws, Dumps (PyDict [(''type'', PyStr ''ice_candidate''),
                                           (''from_user'', PyStr (ICECandidate.from_user candidate_data)),
                                           (''candidate'', PyDict (candidate candidate_data))]))]\<rparr>\<rparr>))"
    if "lookup (manager w) (ICECandidate.room_id' candidate_data) (ICECandidate.to_user candidate_data) = Some ws"
    by (simp add: send_ice_candidate_def personal_present[OF that] send_text_cases split: option.splits)
  from a b c d e f d' e' f' show ?thesis by blast
qed

theorem targeted_relay_witness:
  "getitem offer_value ''type'' = Returned (PyStr ''webrtc_offer'') \<and>
   getitem offer_value ''to_user'' = Returned (PyStr ''B'') \<and>
   lookup (manager two_world) ''r1'' ''B'' = Some 2 \<and>
   map_of (faults (net two_world)) 2 = None \<and>
   handle_text offer_text (Returned offer_value) ''r1'' ''A'' two_world =
     (Returned (), two_world\<lparr>net := example_net\<lparr>outbox := [(2, Raw offer_text)]\<rparr>\<rparr>) \<and>
   lookup (manager two_world) ''r2'' ''B'' = None \<and>
   handle_text offer_text (Returned offer_value) ''r2'' ''A'' two_world = (Returned (), two_world) \<and>
   lookup (manager two_world) (WebRTCOffer.room_id' offer_to_Z) (WebRTCOffer.to_user offer_to_Z) = None \<and>
   send_offer offer_to_Z user_A two_world = (Returned ''Offer sent'', two_world) \<and>
   lookup (manager two_world) (WebRTCOffer.room_id' offer_to_B) (WebRTCOffer.to_user offer_to_B) = Some 2 \<and>
   send_offer offer_to_B user_A two_world =
     (Returned ''Offer sent'',
      two_world\<lparr>net := example_net\<lparr>outbox :=
        [(2, Dumps (PyDict [(''type'', PyStr ''webrtc_offer''), (''from_user'', PyStr ''A''),
                            (''offer'', PyDict [(''sdp'', PyStr ''v=0'')])]))]\<rparr>\<rparr>) \<and>
   send_answer answer_to_B user_A two_world =
     (Returned ''Answer sent'',
      two_world\<lparr>net := example_net\<lparr>outbox :=
        [(2, Dumps (PyDict [(''type'', PyStr ''webrtc_answer''), (''from_user'', PyStr ''A''),
                            (''answer'', PyDict [(''sdp'', PyStr ''v=1'')])]))]\<rparr>\<rparr>) \<and>
   send_ice_candidate candidate_to_B user_A two_world =
     (Returned ''ICE candidate sent'',
      two_world\<lparr>net := example_net\<lparr>outbox :=
        [(2, Dumps (PyDict [(''type'', PyStr ''ice_candidate''), (''from_user'', PyStr ''A''),
                            (''candidate'', PyDict [(''sdpMid'', PyStr ''0'')])]))]\<rparr>\<rparr>)"
proof -
  have t: "getitem offer_value ''type'' = Returned (PyStr ''webrtc_offer'')"
    and u: "getitem offer_value ''to_user'' = Returned (PyStr ''B'')"
    by (simp_all add: offer_value_def)
  have k: "''webrtc_offer'' \<in> {''webrtc_offer'', ''webrtc_answer'', ''ice_candidate''}" by simp
  have l: "lookup (manager two_world) ''r1'' ''B'' = Some 2"
    "lookup (manager two_world) ''r2'' ''B'' = None"
    "lookup (manager two_world) (WebRTCOffer.room_id' offer_to_Z) (WebRTCOffer.to_user offer_to_Z) = None"
    "lookup (manager two_world) (WebRTCOffer.room_id' offer_to_B) (WebRTCOffer.to_user offer_to_B) = Some 2"
    "lookup (manager two_world) (WebRTCAnswer.room_id' answer_to_B) (WebRTCAnswer.to_user answer_to_B) = Some 2"
    "lookup (manager two_world) (ICECandidate.room_id' candidate_to_B) (ICECandidate.to_user candidate_to_B) = Some 2"
    by (simp_all add: two_world_def two_members_def lookup_def offer_to_Z_def offer_to_B_def
        answer_to_B_def candidate_to_B_def)
  have f: "map_of (faults (net two_world)) 2 = None" "net two_world = example_net"
    "outbox example_net = []"
    by (simp_all add: two_world_def example_net_def)
  have p: "WebRTCOffer.from_user offer_to_B = ''A''" "offer offer_to_B = [(''sdp'', PyStr ''v=0'')]"
    "WebRTCAnswer.from_user answer_to_B = ''A''" "answer answer_to_B = [(''sdp'', PyStr ''v=1'')]"
    "ICECandidate.from_user candidate_to_B = ''A''"
    "candidate candidate_to_B = [(''sdpMid'', PyStr ''0'')]"
    by (simp_all add: offer_to_B_def answer_to_B_def candidate_to_B_def)
  from targeted_relay[OF t k u, of two_world "''r1''" 2 offer_text "''A''" "[]" offer_to_Z user_A
      answer_to_B candidate_to_B]
    targeted_relay[OF t k u, of two_world "''r2''" 2 offer_text "''A''" "[]" offer_to_B user_A
      answer_to_B candidate_to_B]
    t u l f p
  show ?thesis by (simp add: send_text_def)
qed


subsection \<open>The disconnect path of the handler\<close>

lemma members_of_inv:
  assumes "registry_inv m"
  shows "set (members_of m r) = {v. lookup m r v \<noteq> None} \<and> distinct (members_of m r)"
proof (cases "map_of (active_connections m) r")
  case None
  with inv_no_room[OF assms None] show ?thesis by (simp add: members_of_def lookup_def)
next
  case (Some conns)
  from inv_room[OF assms Some] obtain ps where
    "map_of (room_participants m) r = Some ps" "distinct ps" "set ps = fst ` set conns"
    by blast
  with Some show ?thesis
    by (auto simp: members_of_def lookup_def map_of_None_iff)
qed

lemma after_disconnect_inv: "registry_inv m \<Longrightarrow> registry_inv (after_disconnect user_id room_id m)"
  unfolding after_disconnect_def
  by (rule disconnect_inv[where r = "fst (disconnect user_id room_id m)"]) simp_all

lemma targets_None: "targets None conns = conns"
  by (simp add: targets_def)

lemma on_disconnect_closed:
  assumes "registry_inv (manager w)"
  shows "on_disconnect room_id user_id w =
           (Closed,
            w\<lparr>manager := after_disconnect user_id room_id (manager w),
              net := (net w)\<lparr>outbox := outbox (net w) @
                map (\<lambda>(u, ws). (ws, user_disconnected user_id))
                  (filter (\<lambda>(u, ws). map_of (faults (net w)) ws = None)
                     (connections_of (after_disconnect user_id room_id (manager w)) room_id))\<rparr>\<rparr>)"
proof -
  have "disconnect user_id room_id (manager w) =
          (Returned (), after_disconnect user_id room_id (manager w))"
    using disconnect_returns[OF assms, of user_id room_id]
    by (simp add: after_disconnect_def prod_eq_iff)
  then show ?thesis
    by (simp add: on_disconnect_def broadcast_outbox targets_None user_disconnected_def)
qed

text \<open>
  C8. When the handler's receive raises \<^verbatim>\<open>WebSocketDisconnect\<close> on a world whose registry
  is reachable, the handler returns through its except block: it disconnects the pair, then
  broadcasts, with no user excluded, the \<^verbatim>\<open>user_disconnected\<close> notification that carries
  the user's id over the registry the disconnect left, so that every remaining member of
  the room whose handle accepts the write gets it. The user is no longer in the room's
  participant list, and the remaining connections are those of the other members.
\<close>

theorem ungraceful_disconnect:
  assumes "reachable (manager w)"
  shows "receive_loop room_id user_id (Disconnect # evs) w = on_disconnect room_id user_id w \<and>
         on_disconnect room_id user_id w =
           (Closed,
            w\<lparr>manager := after_disconnect user_id room_id (manager w),
              net := (net w)\<lparr>outbox := outbox (net w) @
                map (\<lambda>(u, ws). (ws, user_disconnected user_id))
                  (filter (\<lambda>(u, ws). map_of (faults (net w)) ws = None)
                     (connections_of (after_disconnect user_id room_id (manager w)) room_id))\<rparr>\<rparr>) \<and>
         members_of (after_disconnect user_id room_id (manager w)) room_id =
           remove1 user_id (members_of (manager w) room_id) \<and>
         user_id \<notin> set (members_of (after_disconnect user_id room_id (manager w)) room_id) \<and>
         distinct (map fst (connections_of (after_disconnect user_id room_id (manager w)) room_id)) \<and>
         set (map fst (connections_of (after_disconnect user_id room_id (manager w)) room_id)) =
           set (members_of (manager w) room_id) - {user_id}"
proof -
  let ?m1 = "after_disconnect user_id room_id (manager w)"
  have inv: "registry_inv (manager w)" using assms by (rule reachable_inv)
  have inv1: "registry_inv ?m1" using inv by (rule after_disconnect_inv)
  have a: "receive_loop room_id user_id (Disconnect # evs) w = on_disconnect room_id user_id w"
    by simp
  have b: "members_of ?m1 room_id = remove1 user_id (members_of (manager w) room_id)"
    using disconnect_members[OF inv, of user_id room_id room_id]
    by (simp add: after_disconnect_def)
  have dm: "distinct (members_of (manager w) room_id)" using members_of_inv[OF inv] by simp
  have c: "set (members_of ?m1 room_id) = set (members_of (manager w) room_id) - {user_id}"
    using b dm by simp
  from a on_disconnect_closed[OF inv, of room_id user_id] b c connections_of_inv[OF inv1, of room_id]
  show ?thesis by auto
qed

theorem ungraceful_disconnect_witness:
  "reachable (manager two_world) \<and>
   receive_loop ''r1'' ''B'' [Disconnect] two_world =
     (Closed, \<lparr>manager = one_member,
               net = example_net\<lparr>outbox := [(1, user_disconnected ''B'')]\<rparr>,
               rooms = []\<rparr>) \<and>
   members_of one_member ''r1'' = [''A'']"
proof -
  have r: "reachable (manager two_world)"
    using reachable_two_members by (simp add: two_world_def)
  have d: "after_disconnect ''B'' ''r1'' (manager two_world) = one_member"
    by (simp add: after_disconnect_def disconnect_def two_world_def two_members_def one_member_def)
  have c: "connections_of one_member ''r1'' = [(''A'', 1)]"
    by (simp add: connections_of_def one_member_def)
  have n: "net two_world = example_net" "outbox example_net = []" "faults example_net = []"
    by (simp_all add: two_world_def example_net_def)
  have m: "members_of one_member ''r1'' = [''A'']"
    by (simp add: members_of_def one_member_def)
  from ungraceful_disconnect[OF r, of "''r1''" "''B''" "[]"] r m
  show ?thesis
    unfolding d c n by (simp add: two_world_def)
qed

subsection \<open>Leaving a room\<close>

lemma find_one_update_one:
  assumes "\<And>d. ChatRoom.id' (f d) = ChatRoom.id' d"
  shows "find_one room_id (update_one room_id f ds) = map_option f (find_one room_id ds)"
  by (induction ds) (simp_all add: assms)

lemma delete_one_update_one:
  assumes "\<And>d. ChatRoom.id' (f d) = ChatRoom.id' d"
  shows "delete_one room_id (update_one room_id f ds) = delete_one room_id ds"
  by (induction ds) (simp_all add: assms)

lemma find_one_delete_one:
  "distinct (map ChatRoom.id' ds) \<Longrightarrow> find_one room_id (delete_one room_id ds) = None"
proof (induction ds)
  case Nil
  then show ?case by simp
next
  case (Cons d ds)
  have "find_one room_id ds = None" if "room_id \<notin> ChatRoom.id' ` set ds" for ds
    using that by (induction ds) auto
  with Cons show ?case by auto
qed

lemma pulled_id: "ChatRoom.id' (pulled user_id d) = ChatRoom.id' d"
  by (simp add: pulled_def)

lemma leave_room_found:
  assumes inv: "registry_inv (manager w)" and f: "find_one room_id (rooms w) = Some room"
  shows "fst (leave_room room_id current_user w) = Returned ''Successfully left room'' \<and>
         rooms (snd (leave_room room_id current_user w)) =
           (if User.id' current_user \<in> set (participants room)
            then (if participants (pulled (User.id' current_user) room) = []
                  then delete_one room_id (rooms w)
                  else update_one room_id (pulled (User.id' current_user)) (rooms w))
            else (if participants room = [] then delete_one room_id (rooms w) else rooms w))"
proof -
  have d: "disconnect (User.id' current_user) room_id (manager w) =
             (Returned (), after_disconnect (User.id' current_user) room_id (manager w))"
    using disconnect_returns[OF inv, of "User.id' current_user" room_id]
    by (simp add: after_disconnect_def prod_eq_iff)
  have p: "(\<lambda>d. d\<lparr>participants := pull (User.id' current_user) (participants d),
                   active_speakers := pull (User.id' current_user) (active_speakers d)\<rparr>) =
           pulled (User.id' current_user)"
    by (simp add: pulled_def fun_eq_iff)
  show ?thesis
  proof (cases "User.id' current_user \<in> set (participants room)")
    case True
    have fu: "find_one room_id (update_one room_id (pulled (User.id' current_user)) (rooms w)) =
            Some (pulled (User.id' current_user) room)"
      using f by (simp add: find_one_update_one pulled_id)
    from True f d fu show ?thesis
      by (simp add: leave_room_def p broadcast_outbox delete_one_update_one pulled_id)
  next
    case False
    with f d show ?thesis
      by (simp add: leave_room_def broadcast_outbox)
  qed
qed

text \<open>
  C9, as the code has it. On a world whose registry is reachable, a leave of a room that
  the store holds returns its success message. When the acting user is in the room's
  participant list, the user is removed from that list and from the active-speakers list;
  when the user is not in the participant list, the guard of the update leaves both lists
  as they are. In both cases the room document is deleted when its participant list is
  empty after that, whoever created the room, and kept otherwise.
\<close>

theorem leave_room_removes_participant:
  assumes "reachable (manager w)" and "find_one room_id (rooms w) = Some room"
  shows "fst (leave_room room_id current_user w) = Returned ''Successfully left room'' \<and>
         (User.id' current_user \<in> set (participants room) \<longrightarrow>
            User.id' current_user \<notin> set (participants (pulled (User.id' current_user) room)) \<and>
            User.id' current_user \<notin> set (active_speakers (pulled (User.id' current_user) room)) \<and>
            (participants (pulled (User.id' current_user) room) \<noteq> [] \<longrightarrow>
               find_one room_id (rooms (snd (leave_room room_id current_user w))) =
                 Some (pulled (User.id' current_user) room)) \<and>
            (participants (pulled (User.id' current_user) room) = [] \<longrightarrow>
               rooms (snd (leave_room room_id current_user w)) = delete_one room_id (rooms w))) \<and>
         (User.id' current_user \<notin> set (participants room) \<longrightarrow>
            (participants room \<noteq> [] \<longrightarrow> rooms (snd (leave_room room_id current_user w)) = rooms w) \<and>
            (participants room = [] \<longrightarrow>
               rooms (snd (leave_room room_id current_user w)) = delete_one room_id (rooms w))) \<and>
         (distinct (map ChatRoom.id' (rooms w)) \<longrightarrow>
            find_one room_id (delete_one room_id (rooms w)) = None)"
proof -
  have inv: "registry_inv (manager w)" using assms(1) by (rule reachable_inv)
  note l = leave_room_found[OF inv assms(2), of current_user]
  have fu: "find_one room_id (update_one room_id (pulled (User.id' current_user)) (rooms w)) =
            Some (pulled (User.id' current_user) room)"
    using assms(2) by (simp add: find_one_update_one pulled_id)
  have pl: "User.id' current_user \<notin> set (participants (pulled (User.id' current_user) room))"
    "User.id' current_user \<notin> set (active_speakers (pulled (User.id' current_user) room))"
    by (simp_all add: pulled_def pull_def)
  from l fu pl find_one_delete_one[of "rooms w" room_id] show ?thesis by auto
qed

theorem leave_room_removes_participant_witness:
  "reachable (manager store_world) \<and> find_one ''r1'' (rooms store_world) = Some room_r1 \<and>
   User.id' user_X \<in> set (participants room_r1) \<and>
   participants (pulled (User.id' user_X) room_r1) = [] \<and>
   created_by room_r1 = User.id' user_X \<and>
   distinct (map ChatRoom.id' (rooms store_world)) \<and>
   fst (leave_room ''r1'' user_X store_world) = Returned ''Successfully left room'' \<and>
   rooms (snd (leave_room ''r1'' user_X store_world)) = [] \<and>
   User.id' user_Y \<notin> set (participants room_r1) \<and> participants room_r1 \<noteq> [] \<and>
   rooms (snd (leave_room ''r1'' user_Y store_world)) = rooms store_world"
proof -
  have r: "reachable (manager store_world)"
    using reachable_init by (simp add: store_world_def)
  have f: "find_one ''r1'' (rooms store_world) = Some room_r1"
    by (simp add: store_world_def room_r1_def)
  have x: "User.id' user_X \<in> set (participants room_r1)"
    "participants (pulled (User.id' user_X) room_r1) = []"
    "created_by room_r1 = User.id' user_X"
    "User.id' user_Y \<notin> set (participants room_r1)" "participants room_r1 \<noteq> []"
    by (simp_all add: user_X_def user_Y_def room_r1_def pulled_def pull_def)
  have d: "distinct (map ChatRoom.id' (rooms store_world))"
    "delete_one ''r1'' (rooms store_world) = []"
    by (simp_all add: store_world_def room_r1_def)
  from leave_room_removes_participant[OF r f, of user_X]
    leave_room_removes_participant[OF r f, of user_Y] r f x d
  show ?thesis by simp
qed

text \<open>
  C9 as stated fails for a user who is not a participant: \<open>Y\<close> never joined room
  \<open>r1\<close>, reports itself as speaking there, then leaves. The leave succeeds and \<open>Y\<close> is
  still in the room's active-speakers list.
\<close>

theorem leave_room_keeps_speaker_counterexample:
  "update_voice_status speaking_Y user_Y store_world =
     (Returned ''Voice status updated'',
      store_world\<lparr>rooms := [room_r1\<lparr>active_speakers := [''Y'']\<rparr>]\<rparr>) \<and>
   leave_room ''r1'' user_Y (store_world\<lparr>rooms := [room_r1\<lparr>active_speakers := [''Y'']\<rparr>]\<rparr>) =
     (Returned ''Successfully left room'',
      store_world\<lparr>rooms := [room_r1\<lparr>active_speakers := [''Y'']\<rparr>]\<rparr>) \<and>
   User.id' user_Y \<in> set (active_speakers (room_r1\<lparr>active_speakers := [''Y'']\<rparr>))"
  by (simp add: update_voice_status_def leave_room_def store_world_def room_r1_def user_Y_def
      speaking_Y_def addToSet_def init_def example_net_def broadcast_to_room_def disconnect_def)

subsection \<open>Frames that do not parse\<close>

lemma rejected_frame_ends_loop:
  "e \<noteq> WebSocketDisconnect \<Longrightarrow>
   receive_loop room_id user_id (Text data (Raised e) # evs) w = (Crashed e, w)"
  by (simp add: handle_text_def)

text \<open>
  C1 on the code: user \<open>A\<close> connects to room \<open>r1\<close> and sends a frame that is an empty
  JSON object, or that is not JSON, or that is a JSON list. The handler is ended by the
  \<^verbatim>\<open>KeyError\<close>, \<^verbatim>\<open>JSONDecodeError\<close> or \<^verbatim>\<open>TypeError\<close>, which its
  \<^verbatim>\<open>except WebSocketDisconnect\<close> does not catch; the registry still holds the handle of
  the ended session. Without the frame the session stays in its loop.
\<close>

theorem malformed_frame_ends_session:
  "websocket_endpoint 1 ''r1'' ''A'' [Text ''{}'' (Returned (PyDict []))] empty_world =
     (Crashed KeyError,
      \<lparr>manager = one_member, net = example_net\<lparr>accepted := [1]\<rparr>, rooms = []\<rparr>) \<and>
   websocket_endpoint 1 ''r1'' ''A'' [Text ''{'' (Raised JSONDecodeError)] empty_world =
     (Crashed JSONDecodeError,
      \<lparr>manager = one_member, net = example_net\<lparr>accepted := [1]\<rparr>, rooms = []\<rparr>) \<and>
   websocket_endpoint 1 ''r1'' ''A'' [Text ''[]'' (Returned (PyList []))] empty_world =
     (Crashed TypeError,
      \<lparr>manager = one_member, net = example_net\<lparr>accepted := [1]\<rparr>, rooms = []\<rparr>) \<and>
   websocket_endpoint 1 ''r1'' ''A'' [] empty_world =
     (Active, \<lparr>manager = one_member, net = example_net\<lparr>accepted := [1]\<rparr>, rooms = []\<rparr>) \<and>
   lookup one_member ''r1'' ''A'' = Some 1"
  by (simp add: websocket_endpoint_def connect_def accept_def handle_text_def empty_world_def
      init_def example_net_def one_member_def lookup_def)

end
